theory Spec2Isabelle
  imports Complex_Main "HOL-Library.Product_Lexorder" "HOL-Library.AList"
begin

section \<open>The XRD pattern calculator and the entry base class of pymatgen\<close>

text \<open>
  The development embeds \<^verbatim>\<open>pymatgen/analysis/diffraction/xrd.py\<close> (class
  \<^verbatim>\<open>XRDCalculator\<close>) and \<^verbatim>\<open>pymatgen/entries/__init__.py\<close> (class
  \<^verbatim>\<open>Entry\<close>).  Python floats are read as real numbers: comparisons, sums and
  quotients are the exact ones, and rounding is not modelled.  Every \<^verbatim>\<open>raise\<close> of the
  source, and every exception of the Python operations it calls, is a value \<open>Inl e\<close>.
\<close>

subsection \<open>Errors\<close>

datatype error =
    TypeError string
  | KeyError string
  | PeakKeyError real
  | AttributeError string
  | NoScatteringCoefficients string
  | MathDomainError
  | ZeroDivisionError
  | ShapeError
  | EmptyMaxError
  | ModeError string

subsection \<open>Construction of the calculator\<close>

text \<open>The module constant \<^verbatim>\<open>WAVELENGTHS\<close>, in the order of the source.\<close>

definition WAVELENGTHS :: "(string \<times> real) list" where
  "WAVELENGTHS =
    [(''CuKa'', 1.54184), (''CuKa2'', 1.54439), (''CuKa1'', 1.54056), (''CuKb1'', 1.39222),
     (''MoKa'', 0.71073), (''MoKa2'', 0.71359), (''MoKa1'', 0.70930), (''MoKb1'', 0.63229),
     (''CrKa'', 2.29100), (''CrKa2'', 2.29361), (''CrKa1'', 2.28970), (''CrKb1'', 2.08487),
     (''FeKa'', 1.93735), (''FeKa2'', 1.93998), (''FeKa1'', 1.93604), (''FeKb1'', 1.75661),
     (''CoKa'', 1.79026), (''CoKa2'', 1.79285), (''CoKa1'', 1.78896), (''CoKb1'', 1.63079),
     (''AgKa'', 0.560885), (''AgKa2'', 0.563813), (''AgKa1'', 0.559421), (''AgKb1'', 0.497082)]"

text \<open>
  The \<^verbatim>\<open>wavelength\<close> argument of \<^verbatim>\<open>__init__\<close> is dynamically typed: a number
  (\<^verbatim>\<open>float | int\<close>), a string, or a value of any other type, of which only the type
  name is used (in the message of the \<^verbatim>\<open>TypeError\<close>).
\<close>

datatype wavelength_arg = Num real | Str string | Other string

text \<open>
  The calculator object.  An attribute that has not been assigned is \<open>None\<close>;
  \<open>unset\<close> is the object as \<^verbatim>\<open>__init__\<close> receives it.
\<close>

record XRDCalculator =
  radiation :: "string option"
  wavelength :: "real option"
  symprec :: "real option"
  debye_waller_factors :: "(string \<times> real) list option"

definition unset :: XRDCalculator where
  "unset = \<lparr>radiation = None, wavelength = None, symprec = None, debye_waller_factors = None\<rparr>"

text \<open>Lines 128-129: the two assignments that follow the branch on the wavelength.\<close>

definition init_rest :: "real \<Rightarrow> (string \<times> real) list option \<Rightarrow> XRDCalculator \<Rightarrow> XRDCalculator" where
  "init_rest sp dwf self =
     self\<lparr>symprec := Some sp,
          debye_waller_factors := Some (case dwf of None \<Rightarrow> [] | Some d \<Rightarrow> d)\<rparr>"

text \<open>
  \<^verbatim>\<open>XRDCalculator.__init__\<close> (lines 120-129), as a state transformer on the object:
  the result is the exception raised, if any, and the object as the call leaves it.
\<close>

definition XRDCalculator_init ::
  "wavelength_arg \<Rightarrow> real \<Rightarrow> (string \<times> real) list option \<Rightarrow> XRDCalculator
     \<Rightarrow> error option \<times> XRDCalculator" where
  "XRDCalculator_init wl sp dwf self =
     (case wl of
        Num w \<Rightarrow> (None, init_rest sp dwf (self\<lparr>wavelength := Some w\<rparr>))
      | Str s \<Rightarrow>
          (let self1 = self\<lparr>radiation := Some s\<rparr> in
           case map_of WAVELENGTHS s of
             None \<Rightarrow> (Some (KeyError s), self1)
           | Some w \<Rightarrow> (None, init_rest sp dwf (self1\<lparr>wavelength := Some w\<rparr>)))
      | Other ty \<Rightarrow> (Some (TypeError ty), self))"

text \<open>A wavelength argument is numeric, or a recognised name of \<open>WAVELENGTHS\<close>.\<close>

fun is_numeric :: "wavelength_arg \<Rightarrow> bool" where
  "is_numeric (Num w) = True"
| "is_numeric _ = False"

fun is_recognized_name :: "wavelength_arg \<Rightarrow> bool" where
  "is_recognized_name (Str s) = (s \<in> fst ` set WAVELENGTHS)"
| "is_recognized_name _ = False"

fun is_string :: "wavelength_arg \<Rightarrow> bool" where
  "is_string (Str s) = True"
| "is_string _ = False"

subsection \<open>Structures, lattices and the collaborators of the calculator\<close>

text \<open>
  A species has an atomic number and a symbol; a site holds its species with their
  occupancies (\<^verbatim>\<open>site.species.items()\<close>) and its fractional coordinates.
\<close>

record Species =
  Z :: int
  symbol :: string

record Site =
  species :: "(Species \<times> real) list"
  frac_coords :: "real \<times> real \<times> real"

text \<open>
  An element of the list returned by \<^verbatim>\<open>get_points_in_sphere\<close>, of which the loop of
  line 202 uses the first two components: the (floating) Miller indices \<^verbatim>\<open>hkl\<close> and the
  magnitude \<^verbatim>\<open>g_hkl\<close>.
\<close>

record RecipPoint =
  hkl :: "real \<times> real \<times> real"
  g_hkl :: real

text \<open>
  The lattice is an object of another module.  The calculator calls two of its methods:
  \<^verbatim>\<open>is_hexagonal()\<close> and, on its crystallographic reciprocal lattice,
  \<^verbatim>\<open>get_points_in_sphere([[0, 0, 0]], [0, 0, 0], r)\<close>, here a function of the radius.
\<close>

record Lattice =
  is_hexagonal :: bool
  points_in_sphere :: "real \<Rightarrow> RecipPoint list"

record Structure =
  sites :: "Site list"
  lattice :: Lattice

text \<open>
  What \<^verbatim>\<open>xrd.py\<close> takes from outside the file: the two class constants of
  \<^verbatim>\<open>AbstractDiffractionPatternCalculator\<close>, the table loaded from
  \<^verbatim>\<open>atomic_scattering_params.json\<close> (element symbol to a list of pairs \<open>(a, b)\<close>),
  the refinement of \<^verbatim>\<open>SpacegroupAnalyzer\<close> and the function
  \<^verbatim>\<open>get_unique_families\<close>, which maps the tuples of a peak to its families with
  their multiplicities.  They are parameters of the model.
\<close>

record Externals =
  TWO_THETA_TOL :: real
  SCALED_INTENSITY_TOL :: real
  ATOMIC_SCATTERING_PARAMS :: "(string \<times> (real \<times> real) list) list"
  get_refined_structure :: "real \<Rightarrow> Structure \<Rightarrow> Structure"
  get_unique_families :: "int list list \<Rightarrow> (int list \<times> nat) list"

subsection \<open>The flattened arrays of lines 174-198\<close>

text \<open>
  The five parallel lists \<^verbatim>\<open>_zs, _coeffs, _frac_coords, _occus, _dw_factors\<close> are one
  list of records, in the same order.
\<close>

record SiteContribution =
  sc_Z :: int
  sc_coeffs :: "(real \<times> real) list"
  sc_frac_coords :: "real \<times> real \<times> real"
  sc_occu :: real
  sc_dw_factor :: real

text \<open>\<^verbatim>\<open>self.debye_waller_factors.get(sp.symbol, 0)\<close>.\<close>

definition dw_get :: "(string \<times> real) list \<Rightarrow> string \<Rightarrow> real" where
  "dw_get dwf s = (case map_of dwf s of None \<Rightarrow> 0 | Some v \<Rightarrow> v)"

text \<open>
  The inner loop of lines 181-192 over the species of one site, and the outer loop of
  line 180 over the sites.  The first symbol without an entry in the table raises.
\<close>

fun flatten_species ::
  "Externals \<Rightarrow> (string \<times> real) list option \<Rightarrow> real \<times> real \<times> real \<Rightarrow> (Species \<times> real) list
     \<Rightarrow> error + SiteContribution list" where
  "flatten_species ext dwf fc [] = Inr []"
| "flatten_species ext dwf fc ((sp, occu) # rest) =
     (case map_of (ATOMIC_SCATTERING_PARAMS ext) (symbol sp) of
        None \<Rightarrow> Inl (NoScatteringCoefficients (symbol sp))
      | Some c \<Rightarrow>
          (case dwf of
             None \<Rightarrow> Inl (AttributeError ''debye_waller_factors'')
           | Some d \<Rightarrow>
               (case flatten_species ext dwf fc rest of
                  Inl e \<Rightarrow> Inl e
                | Inr cs \<Rightarrow>
                    Inr (\<lparr>sc_Z = Z sp, sc_coeffs = c, sc_frac_coords = fc, sc_occu = occu,
                          sc_dw_factor = dw_get d (symbol sp)\<rparr> # cs))))"

fun flatten_sites ::
  "Externals \<Rightarrow> (string \<times> real) list option \<Rightarrow> Site list \<Rightarrow> error + SiteContribution list" where
  "flatten_sites ext dwf [] = Inr []"
| "flatten_sites ext dwf (site # rest) =
     (case flatten_species ext dwf (frac_coords site) (species site) of
        Inl e \<Rightarrow> Inl e
      | Inr cs \<Rightarrow>
          (case flatten_sites ext dwf rest of
             Inl e \<Rightarrow> Inl e
           | Inr cs' \<Rightarrow> Inr (cs @ cs')))"

text \<open>
  \<^verbatim>\<open>np.array(_coeffs)\<close> (line 195) needs rows of one length, and
  \<^verbatim>\<open>coeffs[:, :, 0]\<close> (line 229) an array of three dimensions.
\<close>

definition rectangular :: "SiteContribution list \<Rightarrow> bool" where
  "rectangular scs = (\<forall>c \<in> set scs. length (sc_coeffs c) = length (sc_coeffs (hd scs)))"

subsection \<open>One reciprocal point (lines 204-250)\<close>

text \<open>
  Python's \<^verbatim>\<open>round\<close> on a float rounds to the nearest integer, and a tie to the even
  one.
\<close>

definition py_round :: "real \<Rightarrow> int" where
  "py_round v =
     (let f = \<lfloor>v\<rfloor>; r = v - of_int f in
      if r < 1 / 2 then f else if 1 / 2 < r then f + 1 else if even f then f else f + 1)"

definition radians :: "real \<Rightarrow> real" where
  "radians t = t * pi / 180"

definition degrees :: "real \<Rightarrow> real" where
  "degrees t = t * 180 / pi"

text \<open>\<^verbatim>\<open>math.asin\<close> raises outside \<open>[-1, 1]\<close> (line 207).\<close>

definition bragg_theta :: "real \<Rightarrow> real \<Rightarrow> error + real" where
  "bragg_theta wl g =
     (let v = wl * g / 2 in if v < - 1 \<or> 1 < v then Inl MathDomainError else Inr (arcsin v))"

text \<open>Line 218, for one row of \<^verbatim>\<open>frac_coords\<close>.\<close>

definition g_dot_r :: "int \<times> int \<times> int \<Rightarrow> real \<times> real \<times> real \<Rightarrow> real" where
  "g_dot_r m fc =
     (case m of (h, k, l) \<Rightarrow> case fc of (a, b, c) \<Rightarrow>
        a * of_int h + b * of_int k + c * of_int l)"

text \<open>Lines 228-231, for one row: the atomic scattering factor.\<close>

definition fs :: "real \<Rightarrow> SiteContribution \<Rightarrow> real" where
  "fs s2 c =
     of_int (sc_Z c) - 41.78214 * s2 * (\<Sum>(a, b) \<leftarrow> sc_coeffs c. a * exp (- b * s2))"

text \<open>Lines 233-238: the structure factor.\<close>

definition f_hkl :: "real \<Rightarrow> int \<times> int \<times> int \<Rightarrow> SiteContribution list \<Rightarrow> complex" where
  "f_hkl s2 m scs =
     (\<Sum>c \<leftarrow> scs. of_real (fs s2 c * sc_occu c)
                  * exp (2 * \<i> * of_real pi * of_real (g_dot_r m (sc_frac_coords c)))
                  * of_real (exp (- sc_dw_factor c * s2)))"

text \<open>
  Line 241.  The division is one of Python floats, which raises on a zero divisor.
\<close>

definition lorentz_factor :: "real \<Rightarrow> error + real" where
  "lorentz_factor theta =
     (let den = (sin theta)\<^sup>2 * cos theta in
      if den = 0 then Inl ZeroDivisionError else Inr ((1 + (cos (2 * theta))\<^sup>2) / den))"

text \<open>Lines 248-250: the tuple recorded for the point.\<close>

definition miller_tuple :: "bool \<Rightarrow> int \<times> int \<times> int \<Rightarrow> int list" where
  "miller_tuple is_hex m =
     (case m of (h, k, l) \<Rightarrow> if is_hex then [h, k, - h - k, l] else [h, k, l])"

text \<open>
  What the body of the loop has computed for a point when it reaches line 252: the angle
  \<^verbatim>\<open>two_theta\<close>, the product \<^verbatim>\<open>i_hkl * lorentz_factor\<close>, the tuple, and the
  magnitude \<^verbatim>\<open>g_hkl\<close>, from which line 259 takes \<^verbatim>\<open>d_hkl\<close>.
\<close>

record Contribution =
  two_theta :: real
  intensity :: real
  indices :: "int list"
  g :: real

definition point_contribution ::
  "real \<Rightarrow> bool \<Rightarrow> SiteContribution list \<Rightarrow> RecipPoint \<Rightarrow> error + Contribution" where
  "point_contribution wl is_hex scs pt =
     (let m = (case hkl pt of (h, k, l) \<Rightarrow> (py_round h, py_round k, py_round l)) in
      case bragg_theta wl (g_hkl pt) of
        Inl e \<Rightarrow> Inl e
      | Inr theta \<Rightarrow>
          (let s = g_hkl pt / 2; s2 = s * s in
           if scs = [] \<or> sc_coeffs (hd scs) = [] then Inl ShapeError
           else
             (let f = f_hkl s2 m scs in
              case lorentz_factor theta of
                Inl e \<Rightarrow> Inl e
              | Inr lf \<Rightarrow>
                  Inr \<lparr>two_theta = degrees (2 * theta),
                       intensity = Re (f * cnj f) * lf,
                       indices = miller_tuple is_hex m,
                       g = g_hkl pt\<rparr>)))"

subsection \<open>The peak aggregator (lines 199-200 and 252-261)\<close>

text \<open>
  The dictionary \<^verbatim>\<open>peaks\<close> maps an angle to the list
  \<^verbatim>\<open>[intensity, tuples, d_hkl]\<close>; it is an association list in insertion order, as
  a Python dictionary is.  \<^verbatim>\<open>two_thetas\<close> is the list of the angles recorded.
\<close>

type_synonym peak = "real \<times> int list list \<times> real"

record Aggregator =
  peaks :: "(real \<times> peak) list"
  two_thetas :: "real list"

definition empty_aggregator :: Aggregator where
  "empty_aggregator = \<lparr>peaks = [], two_thetas = []\<rparr>"

text \<open>
  Lines 252-261.  \<^verbatim>\<open>ind[0][0]\<close> is the first index of \<^verbatim>\<open>two_thetas\<close> whose
  angle is within the tolerance, so \<^verbatim>\<open>two_thetas[ind[0][0]]\<close> is what \<open>find\<close>
  returns.
\<close>

definition aggregate_step :: "real \<Rightarrow> Aggregator \<Rightarrow> Contribution \<Rightarrow> error + Aggregator" where
  "aggregate_step tol st c =
     (case find (\<lambda>t. \<bar>t - two_theta c\<bar> < tol) (two_thetas st) of
        Some t \<Rightarrow>
          (case map_of (peaks st) t of
             None \<Rightarrow> Inl (PeakKeyError t)
           | Some (i, hs, d) \<Rightarrow>
               Inr (st\<lparr>peaks := AList.update t (i + intensity c, hs @ [indices c], d) (peaks st)\<rparr>))
      | None \<Rightarrow>
          Inr \<lparr>peaks = AList.update (two_theta c) (intensity c, [indices c], 1 / g c) (peaks st),
               two_thetas = two_thetas st @ [two_theta c]\<rparr>)"

text \<open>The key of line 202 and the order in which the loop visits the points.\<close>

definition sort_key_202 :: "RecipPoint \<Rightarrow> real \<times> real \<times> real \<times> real" where
  "sort_key_202 pt = (case hkl pt of (h, k, l) \<Rightarrow> (g_hkl pt, - h, - k, - l))"

definition processing_order :: "RecipPoint list \<Rightarrow> RecipPoint list" where
  "processing_order pts = sort_key sort_key_202 pts"

text \<open>The loop of lines 202-261 over the points in that order.\<close>

fun process_points ::
  "real \<Rightarrow> real \<Rightarrow> bool \<Rightarrow> SiteContribution list \<Rightarrow> Aggregator \<Rightarrow> RecipPoint list
     \<Rightarrow> error + Aggregator" where
  "process_points tol wl is_hex scs st [] = Inr st"
| "process_points tol wl is_hex scs st (pt # pts) =
     (if g_hkl pt \<noteq> 0 then
        (case point_contribution wl is_hex scs pt of
           Inl e \<Rightarrow> Inl e
         | Inr c \<Rightarrow>
             (case aggregate_step tol st c of
                Inl e \<Rightarrow> Inl e
              | Inr st' \<Rightarrow> process_points tol wl is_hex scs st' pts))
      else process_points tol wl is_hex scs st pts)"

subsection \<open>The pattern (lines 263-280)\<close>

record DiffractionPattern =
  x :: "real list"
  y :: "real list"
  hkls :: "(int list \<times> nat) list list"
  d_hkls :: "real list"

text \<open>
  Line 272.  The two intensities are numpy floats, whose division does not raise: with a
  zero maximum the quotient is \<^verbatim>\<open>inf\<close> for a positive intensity, which exceeds the
  threshold, and \<^verbatim>\<open>nan\<close> or \<^verbatim>\<open>-inf\<close> otherwise, which do not.
\<close>

definition exceeds_threshold :: "real \<Rightarrow> real \<Rightarrow> real \<Rightarrow> bool" where
  "exceeds_threshold itol max_intensity v =
     (if max_intensity = 0 then 0 < v else itol < v / max_intensity * 100)"

text \<open>
  Line 264, for a dictionary that is not empty: the maximum of the accumulated
  intensities \<^verbatim>\<open>v[0]\<close>.
\<close>

definition max_intensity :: "(real \<times> peak) list \<Rightarrow> real" where
  "max_intensity ps = Max (set (map (\<lambda>kv. fst (snd kv)) ps))"

text \<open>
  Lines 269-272.  The keys of a dictionary are distinct, so visiting
  \<^verbatim>\<open>sorted(peaks)\<close> and reading \<^verbatim>\<open>peaks[k]\<close> visits the items in the order of
  their keys; \<open>retained\<close> are the items that pass the test of line 272.
\<close>

definition retained :: "real \<Rightarrow> (real \<times> peak) list \<Rightarrow> (real \<times> peak) list" where
  "retained itol ps =
     filter (\<lambda>kv. exceeds_threshold itol (max_intensity ps) (fst (snd kv))) (sort_key fst ps)"

text \<open>
  Lines 264-277: \<^verbatim>\<open>max\<close> raises on an empty dictionary; the four lists of the
  pattern are read off the retained items.
\<close>

definition build_pattern :: "Externals \<Rightarrow> (real \<times> peak) list \<Rightarrow> error + DiffractionPattern" where
  "build_pattern ext ps =
     (if ps = [] then Inl EmptyMaxError
      else
        (let kept = retained (SCALED_INTENSITY_TOL ext) ps in
         Inr \<lparr>x = map fst kept,
              y = map (\<lambda>kv. fst (snd kv)) kept,
              hkls = map (\<lambda>kv. get_unique_families ext (fst (snd (snd kv)))) kept,
              d_hkls = map (\<lambda>kv. snd (snd (snd kv))) kept\<rparr>))"

text \<open>
  Modelled from the spec: \<^verbatim>\<open>DiffractionPattern.normalize(mode="max", value=100)\<close>, which
  is not in the files at hand.  The specification says of it: ``rescale all intensities so
  the maximum becomes exactly 100 (linear scaling, \<dots> applied once at the end)''.  Every
  intensity is divided by the same factor, the maximum over the value; a pattern with no
  peak has no maximum and raises, as the maximum of line 264 does.
\<close>

definition normalize_max :: "real \<Rightarrow> DiffractionPattern \<Rightarrow> error + DiffractionPattern" where
  "normalize_max v p =
     (if y p = [] then Inl EmptyMaxError
      else Inr (p\<lparr>y := map (\<lambda>i. i / (Max (set (y p)) / v)) (y p)\<rparr>))"

text \<open>Lines 158-162: the radii of the window; \<^verbatim>\<open>2 / wavelength\<close> raises at zero.\<close>

definition radius_bounds :: "real \<Rightarrow> (real \<times> real) option \<Rightarrow> error + real \<times> real" where
  "radius_bounds wl two_theta_range =
     (if wl = 0 then Inl ZeroDivisionError
      else
        (case two_theta_range of
           None \<Rightarrow> Inr (0, 2 / wl)
         | Some (t0, t1) \<Rightarrow>
             Inr (2 * sin (radians (t0 / 2)) / wl, 2 * sin (radians (t1 / 2)) / wl)))"

text \<open>Lines 165-168: the points of the sphere, filtered when \<^verbatim>\<open>min_r\<close> is not zero.\<close>

definition recip_pts :: "Lattice \<Rightarrow> real \<Rightarrow> real \<Rightarrow> RecipPoint list" where
  "recip_pts lat min_r max_r =
     (if min_r \<noteq> 0 then filter (\<lambda>pt. min_r \<le> g_hkl pt) (points_in_sphere lat max_r)
      else points_in_sphere lat max_r)"

text \<open>Lines 148-150: the structure the computation works on.\<close>

definition working_structure :: "Externals \<Rightarrow> real \<Rightarrow> Structure \<Rightarrow> Structure" where
  "working_structure ext sp s = (if sp \<noteq> 0 then get_refined_structure ext sp s else s)"

text \<open>\<^verbatim>\<open>XRDCalculator.get_pattern\<close> (lines 148-280).\<close>

definition get_pattern ::
  "Externals \<Rightarrow> XRDCalculator \<Rightarrow> Structure \<Rightarrow> bool \<Rightarrow> (real \<times> real) option
     \<Rightarrow> error + DiffractionPattern" where
  "get_pattern ext self structure scaled two_theta_range =
     (case symprec self of
        None \<Rightarrow> Inl (AttributeError ''symprec'')
      | Some sp \<Rightarrow>
     (let s = working_structure ext sp structure in
      case wavelength self of
        None \<Rightarrow> Inl (AttributeError ''wavelength'')
      | Some wl \<Rightarrow>
     (let lat = lattice s; is_hex = is_hexagonal lat in
      case radius_bounds wl two_theta_range of
        Inl e \<Rightarrow> Inl e
      | Inr (min_r, max_r) \<Rightarrow>
     (let pts = recip_pts lat min_r max_r in
      case flatten_sites ext (debye_waller_factors self) (sites s) of
        Inl e \<Rightarrow> Inl e
      | Inr scs \<Rightarrow>
     (if \<not> rectangular scs then Inl ShapeError
      else
        case process_points (TWO_THETA_TOL ext) wl is_hex scs empty_aggregator
               (processing_order pts) of
          Inl e \<Rightarrow> Inl e
        | Inr st \<Rightarrow>
            (case build_pattern ext (peaks st) of
               Inl e \<Rightarrow> Inl e
             | Inr xrd \<Rightarrow> if scaled then normalize_max 100 xrd else Inr xrd))))))"

subsection \<open>The invariant of the aggregator\<close>

text \<open>
  What the loop maintains: the keys of \<^verbatim>\<open>peaks\<close> are the angles of
  \<^verbatim>\<open>two_thetas\<close>, no key occurs twice, and no two distinct recorded angles are
  within the tolerance of each other.
\<close>

definition aggregator_inv :: "real \<Rightarrow> Aggregator \<Rightarrow> bool" where
  "aggregator_inv tol st =
     (fst ` set (peaks st) = set (two_thetas st) \<and> distinct (map fst (peaks st)) \<and>
      (\<forall>a \<in> set (two_thetas st). \<forall>b \<in> set (two_thetas st). a \<noteq> b \<longrightarrow> \<not> \<bar>a - b\<bar> < tol))"

subsection \<open>A worked input\<close>

text \<open>
  An instance of \<^verbatim>\<open>get_unique_families\<close> for the worked input: tuples whose
  absolute values agree up to order are one family, counted with its first tuple.
\<close>

fun add_family :: "int list \<Rightarrow> (int list \<times> nat) list \<Rightarrow> (int list \<times> nat) list" where
  "add_family h [] = [(h, 1)]"
| "add_family h ((r, n) # fams) =
     (if sort (map abs h) = sort (map abs r) then (r, Suc n) # fams
      else (r, n) # add_family h fams)"

definition unique_families :: "int list list \<Rightarrow> (int list \<times> nat) list" where
  "unique_families hs = foldl (\<lambda>fams h. add_family h fams) [] hs"

text \<open>
  The tolerances are those of the library (\<open>1e-5\<close> and \<open>1e-3\<close>); the table has one
  element, whose series vanishes; no refinement takes place.
\<close>

definition ex_externals :: Externals where
  "ex_externals =
     \<lparr>TWO_THETA_TOL = 1 / 100000, SCALED_INTENSITY_TOL = 1 / 1000,
      ATOMIC_SCATTERING_PARAMS = [(''H'', [(0, 1)])],
      get_refined_structure = (\<lambda>sp s. s),
      get_unique_families = unique_families\<rparr>"

text \<open>The calculator built by \<^verbatim>\<open>XRDCalculator(wavelength=1.0)\<close>.\<close>

definition ex_calculator :: XRDCalculator where
  "ex_calculator = snd (XRDCalculator_init (Num 1) 0 None unset)"

text \<open>
  An orthorhombic cell with \<open>a = 1\<close> and \<open>b = 1 / sqrt 2\<close> and a short third axis:
  the reciprocal points of smallest magnitude, as the enumerator lists them.
\<close>

definition ex_points :: "RecipPoint list" where
  "ex_points =
     [\<lparr>hkl = (0, 0, 0), g_hkl = 0\<rparr>,
      \<lparr>hkl = (0, 1, 0), g_hkl = sqrt 2\<rparr>, \<lparr>hkl = (0, - 1, 0), g_hkl = sqrt 2\<rparr>,
      \<lparr>hkl = (- 1, 0, 0), g_hkl = 1\<rparr>, \<lparr>hkl = (1, 0, 0), g_hkl = 1\<rparr>,
      \<lparr>hkl = (1, 1, 0), g_hkl = sqrt 3\<rparr>]"

definition ex_lattice :: Lattice where
  "ex_lattice =
     \<lparr>is_hexagonal = False,
      points_in_sphere = (\<lambda>r. filter (\<lambda>pt. g_hkl pt \<le> r) ex_points)\<rparr>"

definition ex_structure :: Structure where
  "ex_structure =
     \<lparr>sites = [\<lparr>species = [(\<lparr>Z = 1, symbol = ''H''\<rparr>, 1)], frac_coords = (0, 0, 0)\<rparr>],
      lattice = ex_lattice\<rparr>"

definition ex_scs :: "SiteContribution list" where
  "ex_scs =
     [\<lparr>sc_Z = 1, sc_coeffs = [(0, 1)], sc_frac_coords = (0, 0, 0), sc_occu = 1,
       sc_dw_factor = 0\<rparr>]"

subsection \<open>The aggregator in the words of the specification\<close>

text \<open>
  The specification describes the aggregator by clusters: a point joins the first
  cluster whose first point has an angle within the tolerance of its own, and starts a new
  cluster at the end otherwise.  A cluster is the list of its points in the order of
  processing; the peak it stands for has the angle and spacing of its first point, the
  sum of the intensities and the tuples of all its points.  \<open>contributions\<close> are the
  points the loop evaluates, in order, and \<open>represents\<close> relates clusters to a state
  of the loop.
\<close>

fun cluster_insert :: "real \<Rightarrow> Contribution \<Rightarrow> Contribution list list \<Rightarrow> Contribution list list" where
  "cluster_insert tol c [] = [[c]]"
| "cluster_insert tol c (k # ks) =
     (if \<bar>two_theta (hd k) - two_theta c\<bar> < tol then (k @ [c]) # ks
      else k # cluster_insert tol c ks)"

definition clusters :: "real \<Rightarrow> Contribution list \<Rightarrow> Contribution list list" where
  "clusters tol cs = foldl (\<lambda>ks c. cluster_insert tol c ks) [] cs"

definition peak_of_cluster :: "Contribution list \<Rightarrow> real \<times> peak" where
  "peak_of_cluster k =
     (two_theta (hd k), (sum_list (map intensity k), map indices k, 1 / g (hd k)))"

text \<open>The contributions of the points of nonzero magnitude, in the order given.\<close>

definition contributions ::
  "real \<Rightarrow> bool \<Rightarrow> SiteContribution list \<Rightarrow> RecipPoint list \<Rightarrow> Contribution list" where
  "contributions wl is_hex scs pts =
     map (\<lambda>pt. projr (point_contribution wl is_hex scs pt)) (filter (\<lambda>pt. g_hkl pt \<noteq> 0) pts)"

definition represents :: "Contribution list list \<Rightarrow> Aggregator \<Rightarrow> bool" where
  "represents ks st =
     (peaks st = map peak_of_cluster ks \<and> two_thetas st = map (\<lambda>k. two_theta (hd k)) ks \<and>
      [] \<notin> set ks)"

text \<open>Every accumulated intensity of the dictionary is non-negative.\<close>

definition nonneg_peaks :: "(real \<times> peak) list \<Rightarrow> bool" where
  "nonneg_peaks ps = (\<forall>kv \<in> set ps. 0 \<le> fst (snd kv))"

text \<open>
  Lines 148-261 on their own: the dictionary \<^verbatim>\<open>peaks\<close> as the loop leaves it,
  before line 263.
\<close>

definition aggregated_peaks ::
  "Externals \<Rightarrow> XRDCalculator \<Rightarrow> Structure \<Rightarrow> (real \<times> real) option
     \<Rightarrow> error + (real \<times> peak) list" where
  "aggregated_peaks ext self structure two_theta_range =
     (case symprec self of
        None \<Rightarrow> Inl (AttributeError ''symprec'')
      | Some sp \<Rightarrow>
     (let s = working_structure ext sp structure in
      case wavelength self of
        None \<Rightarrow> Inl (AttributeError ''wavelength'')
      | Some wl \<Rightarrow>
     (let lat = lattice s; is_hex = is_hexagonal lat in
      case radius_bounds wl two_theta_range of
        Inl e \<Rightarrow> Inl e
      | Inr (min_r, max_r) \<Rightarrow>
     (let pts = recip_pts lat min_r max_r in
      case flatten_sites ext (debye_waller_factors self) (sites s) of
        Inl e \<Rightarrow> Inl e
      | Inr scs \<Rightarrow>
     (if \<not> rectangular scs then Inl ShapeError
      else
        case process_points (TWO_THETA_TOL ext) wl is_hex scs empty_aggregator
               (processing_order pts) of
          Inl e \<Rightarrow> Inl e
        | Inr st \<Rightarrow> Inr (peaks st))))))"

subsection \<open>Construction: an unsupported wavelength\<close>

lemma map_of_WAVELENGTHS_None:
  "s \<notin> fst ` set WAVELENGTHS \<Longrightarrow> map_of WAVELENGTHS s = None"
  by (simp add: map_of_eq_None_iff)

text \<open>
  C5, as stated, fails: with a string that names no radiation, the attribute
  \<^verbatim>\<open>radiation\<close> is assigned (line 123) before the lookup of line 124 raises, so
  the object is not left as it was received.
\<close>

theorem init_unknown_name_sets_radiation:
  "\<not> is_numeric (Str ''XyKa'') \<and> \<not> is_recognized_name (Str ''XyKa'') \<and>
   XRDCalculator_init (Str ''XyKa'') 0 None unset
     = (Some (KeyError ''XyKa''), unset\<lparr>radiation := Some ''XyKa''\<rparr>) \<and>
   snd (XRDCalculator_init (Str ''XyKa'') 0 None unset) \<noteq> unset"
  by (simp add: XRDCalculator_init_def WAVELENGTHS_def unset_def)

text \<open>
  C5, amended: if the wavelength is neither numeric nor a recognised name, construction
  fails with an error, and none of the attributes \<^verbatim>\<open>wavelength\<close>,
  \<^verbatim>\<open>symprec\<close> and \<^verbatim>\<open>debye_waller_factors\<close> is assigned; if moreover it is
  not a string, the error is the \<^verbatim>\<open>TypeError\<close> of line 127 and no attribute at all is
  assigned.
\<close>

theorem init_unsupported_wavelength:
  assumes "\<not> is_numeric wl" and "\<not> is_recognized_name wl"
  shows "\<exists>e self'. XRDCalculator_init wl sp dwf self = (Some e, self') \<and>
           wavelength self' = wavelength self \<and> symprec self' = symprec self \<and>
           debye_waller_factors self' = debye_waller_factors self \<and>
           (\<not> is_string wl \<longrightarrow> self' = self \<and> (\<exists>ty. e = TypeError ty))"
proof (cases wl)
  case (Num w)
  with assms(1) show ?thesis by simp
next
  case (Str s)
  with assms(2) have "map_of WAVELENGTHS s = None"
    by (simp add: map_of_WAVELENGTHS_None)
  with Str show ?thesis by (simp add: XRDCalculator_init_def)
next
  case (Other ty)
  then show ?thesis by (simp add: XRDCalculator_init_def)
qed

theorem init_unsupported_wavelength_witness:
  "\<not> is_numeric (Other ''list'') \<and> \<not> is_recognized_name (Other ''list'') \<and>
   (\<exists>e self'. XRDCalculator_init (Other ''list'') 0 None unset = (Some e, self') \<and>
           wavelength self' = wavelength unset \<and> symprec self' = symprec unset \<and>
           debye_waller_factors self' = debye_waller_factors unset \<and>
           (\<not> is_string (Other ''list'') \<longrightarrow> self' = unset \<and> (\<exists>ty. e = TypeError ty)))"
  using init_unsupported_wavelength [of "Other ''list''" 0 None unset] by simp

subsection \<open>The aggregator keeps its invariant\<close>

lemma aggregator_inv_empty: "aggregator_inv tol empty_aggregator"
  by (simp add: aggregator_inv_def empty_aggregator_def)

lemma find_Some_mem: "find P xs = Some t \<Longrightarrow> t \<in> set xs \<and> P t"
  by (induction xs) (auto split: if_splits)

lemma find_None_all: "find P xs = None \<Longrightarrow> \<forall>t \<in> set xs. \<not> P t"
  by (simp add: find_None_iff)

lemma aggregate_step_inv:
  assumes "aggregator_inv tol st" and "aggregate_step tol st c = Inr st'"
  shows "aggregator_inv tol st'"
proof (cases "find (\<lambda>t. \<bar>t - two_theta c\<bar> < tol) (two_thetas st)")
  case None
  then have far: "\<forall>t \<in> set (two_thetas st). \<not> \<bar>t - two_theta c\<bar> < tol"
    by (rule find_None_all)
  from None assms(2) have st': "st' = \<lparr>peaks = AList.update (two_theta c) (intensity c, [indices c], 1 / g c) (peaks st),
               two_thetas = two_thetas st @ [two_theta c]\<rparr>"
    by (simp add: aggregate_step_def)
  have "\<not> \<bar>two_theta c - t\<bar> < tol" if "t \<in> set (two_thetas st)" for t
    using far that by (simp add: abs_minus_commute)
  with far assms(1) show ?thesis
    unfolding st' aggregator_inv_def
    by (auto simp: dom_update distinct_update)
next
  case (Some t)
  then have t: "t \<in> set (two_thetas st)" by (auto dest: find_Some_mem)
  with assms(1) have tk: "t \<in> fst ` set (peaks st)" by (simp add: aggregator_inv_def)
  then obtain v where v: "map_of (peaks st) t = Some v"
    by (metis domD dom_map_of_conv_image_fst)
  obtain i hs d where vv: "v = (i, hs, d)" by (cases v) auto
  from Some v vv assms(2)
  have st': "st' = st\<lparr>peaks := AList.update t (i + intensity c, hs @ [indices c], d) (peaks st)\<rparr>"
    by (simp add: aggregate_step_def)
  have "fst ` set (peaks st') = fst ` set (peaks st)"
    using tk unfolding st' by (simp add: dom_update insert_absorb)
  moreover have "distinct (map fst (peaks st'))"
    using assms(1) unfolding st' by (simp add: aggregator_inv_def distinct_update)
  moreover have "two_thetas st' = two_thetas st" unfolding st' by simp
  ultimately show ?thesis using assms(1) by (simp add: aggregator_inv_def)
qed

lemma process_points_inv:
  "aggregator_inv tol st \<Longrightarrow> process_points tol wl is_hex scs st pts = Inr st'
     \<Longrightarrow> aggregator_inv tol st'"
proof (induction pts arbitrary: st)
  case Nil
  then show ?case by simp
next
  case (Cons pt pts)
  then show ?case
    by (auto split: if_splits sum.splits dest: aggregate_step_inv)
qed


lemma sorted_keys_strict:
  assumes "distinct (map fst ps)"
  shows "sorted_wrt (<) (map fst (filter P (sort_key fst ps)))"
proof -
  have "sorted (map fst (sort_key fst ps))" by (rule sorted_sort_key)
  moreover have "distinct (map fst (sort_key fst ps))"
    using assms by (simp add: distinct_map)
  ultimately have "sorted_wrt (<) (map fst (sort_key fst ps))"
    by (simp add: strict_sorted_iff)
  then have "sorted_wrt (\<lambda>a b. fst a < fst b) (sort_key fst ps)"
    by (simp add: sorted_wrt_map)
  then have "sorted_wrt (\<lambda>a b. fst a < fst b) (filter P (sort_key fst ps))"
    by (rule sorted_wrt_filter)
  then show ?thesis by (simp add: sorted_wrt_map)
qed

lemma build_pattern_x:
  "build_pattern ext ps = Inr pat \<Longrightarrow> x pat = map fst (retained (SCALED_INTENSITY_TOL ext) ps)"
  by (auto simp: build_pattern_def Let_def split: if_splits)

lemma normalize_max_x: "normalize_max v p = Inr q \<Longrightarrow> x q = x p"
  by (auto simp: normalize_max_def split: if_splits)

lemma get_pattern_cases:
  assumes "get_pattern ext self struc scaled rng = Inr pat"
  obtains sp wl min_r max_r scs st xrd where
    "symprec self = Some sp" "wavelength self = Some wl"
    "radius_bounds wl rng = Inr (min_r, max_r)"
    "flatten_sites ext (debye_waller_factors self) (sites (working_structure ext sp struc)) = Inr scs"
    "rectangular scs"
    "process_points (TWO_THETA_TOL ext) wl (is_hexagonal (lattice (working_structure ext sp struc))) scs
        empty_aggregator
        (processing_order (recip_pts (lattice (working_structure ext sp struc)) min_r max_r)) = Inr st"
    "build_pattern ext (peaks st) = Inr xrd"
    "if scaled then normalize_max 100 xrd = Inr pat else pat = xrd"
  using assms unfolding get_pattern_def Let_def
  by (auto split: option.splits sum.splits if_splits prod.splits)

lemma retained_subset: "set (retained itol ps) \<subseteq> set ps"
  by (auto simp: retained_def)

subsection \<open>The worked input, evaluated\<close>

lemma ex_calculator_eq:
  "ex_calculator = \<lparr>radiation = None, wavelength = Some 1, symprec = Some 0, debye_waller_factors = Some []\<rparr>"
  by (simp add: ex_calculator_def XRDCalculator_init_def init_rest_def unset_def)


lemma arcsin_sqrt2_half: "arcsin (sqrt 2 / 2) = pi / 4"
proof -
  have "arcsin (sin (pi / 4)) = pi / 4" by (rule arcsin_sin) (use pi_gt_zero in auto)
  then show ?thesis by (simp add: sin_45)
qed

lemma ex_radius_bounds: "radius_bounds 1 (Some (0, 90)) = Inr (0, sqrt 2)"
  by (simp add: radius_bounds_def radians_def sin_45)

lemma ex_recip_pts:
  "recip_pts ex_lattice 0 (sqrt 2) =
     [\<lparr>hkl = (0, 0, 0), g_hkl = 0\<rparr>,
      \<lparr>hkl = (0, 1, 0), g_hkl = sqrt 2\<rparr>, \<lparr>hkl = (0, - 1, 0), g_hkl = sqrt 2\<rparr>,
      \<lparr>hkl = (- 1, 0, 0), g_hkl = 1\<rparr>, \<lparr>hkl = (1, 0, 0), g_hkl = 1\<rparr>]"
  by (simp add: recip_pts_def ex_lattice_def ex_points_def)

lemma ex_processing_order:
  "processing_order (recip_pts ex_lattice 0 (sqrt 2)) =
     [\<lparr>hkl = (0, 0, 0), g_hkl = 0\<rparr>,
      \<lparr>hkl = (1, 0, 0), g_hkl = 1\<rparr>, \<lparr>hkl = (- 1, 0, 0), g_hkl = 1\<rparr>,
      \<lparr>hkl = (0, 1, 0), g_hkl = sqrt 2\<rparr>, \<lparr>hkl = (0, - 1, 0), g_hkl = sqrt 2\<rparr>]"
  unfolding ex_recip_pts by (simp add: processing_order_def sort_key_202_def less_eq_prod_def less_prod_def)

lemma ex_flatten:
  "flatten_sites ex_externals (Some []) (sites ex_structure) = Inr ex_scs"
  by (simp add: ex_externals_def ex_structure_def ex_scs_def dw_get_def)

lemma py_round_of_int: "py_round (of_int n) = n"
  by (simp add: py_round_def)

lemma py_round_simps: "py_round 0 = 0" "py_round 1 = 1" "py_round (- 1) = - 1"
  using py_round_of_int [of 0] py_round_of_int [of 1] py_round_of_int [of "- 1"] by simp_all

lemma ex_f_hkl: "f_hkl s2 m ex_scs = 1"
  by (cases m) (simp add: f_hkl_def ex_scs_def fs_def g_dot_r_def)

lemma lorentz_30: "lorentz_factor (pi / 6) = Inr (10 / sqrt 3)"
proof -
  have "cos (2 * (pi / 6)) = cos (pi / 3)" by simp
  then have c: "cos (2 * (pi / 6)) = 1 / 2" by (simp only: cos_60)
  show ?thesis
    unfolding lorentz_factor_def Let_def c
    by (simp add: sin_30 cos_30 power2_eq_square field_simps)
qed

lemma lorentz_45: "lorentz_factor (pi / 4) = Inr (2 * sqrt 2)"
proof -
  have "cos (2 * (pi / 4)) = cos (pi / 2)" by simp
  then have c: "cos (2 * (pi / 4)) = 0" by (simp only: cos_pi_half)
  show ?thesis
    unfolding lorentz_factor_def Let_def c
    by (simp add: sin_45 cos_45 power2_eq_square field_simps)
qed

lemma sqrt2_bounds: "\<not> 2 < sqrt 2" "\<not> sqrt 2 < - 2"
proof -
  have "sqrt 2 < 2" by (rule real_less_lsqrt) simp_all
  then show "\<not> 2 < sqrt 2" by simp
  have "0 \<le> sqrt 2" by simp
  then show "\<not> sqrt 2 < - 2" by linarith
qed

lemma ex_scs_shape: "ex_scs \<noteq> []" "sc_coeffs (hd ex_scs) \<noteq> []"
  by (simp_all add: ex_scs_def)

lemma ex_contribution_30:
  assumes "hkl pt = (of_int h, of_int k, of_int l)" "g_hkl pt = 1"
  shows "point_contribution 1 False ex_scs pt =
     Inr \<lparr>two_theta = 60, intensity = 10 / sqrt 3, indices = [h, k, l], g = 1\<rparr>"
  using assms
  by (simp add: point_contribution_def Let_def bragg_theta_def lorentz_30 ex_f_hkl
      py_round_of_int degrees_def miller_tuple_def ex_scs_shape)

lemma ex_contribution_45:
  assumes "hkl pt = (of_int h, of_int k, of_int l)" "g_hkl pt = sqrt 2"
  shows "point_contribution 1 False ex_scs pt =
     Inr \<lparr>two_theta = 90, intensity = 2 * sqrt 2, indices = [h, k, l], g = sqrt 2\<rparr>"
  using assms
  by (simp add: point_contribution_def Let_def bragg_theta_def arcsin_sqrt2_half lorentz_45 ex_f_hkl
      py_round_of_int degrees_def miller_tuple_def ex_scs_shape sqrt2_bounds)

lemma ex_process_points:
  "process_points (1 / 100000) 1 False ex_scs empty_aggregator
     [\<lparr>hkl = (0, 0, 0), g_hkl = 0\<rparr>,
      \<lparr>hkl = (1, 0, 0), g_hkl = 1\<rparr>, \<lparr>hkl = (- 1, 0, 0), g_hkl = 1\<rparr>,
      \<lparr>hkl = (0, 1, 0), g_hkl = sqrt 2\<rparr>, \<lparr>hkl = (0, - 1, 0), g_hkl = sqrt 2\<rparr>]
   = Inr \<lparr>peaks = [(60, (20 / sqrt 3, [[1, 0, 0], [- 1, 0, 0]], 1)),
                   (90, (4 * sqrt 2, [[0, 1, 0], [0, - 1, 0]], 1 / sqrt 2))],
          two_thetas = [60, 90]\<rparr>"
proof -
  have a: "point_contribution 1 False ex_scs \<lparr>hkl = (1, 0, 0), g_hkl = 1\<rparr> =
     Inr \<lparr>two_theta = 60, intensity = 10 / sqrt 3, indices = [1, 0, 0], g = 1\<rparr>"
    using ex_contribution_30 [of "\<lparr>hkl = (1, 0, 0), g_hkl = 1\<rparr>" 1 0 0] by simp
  have b: "point_contribution 1 False ex_scs \<lparr>hkl = (- 1, 0, 0), g_hkl = 1\<rparr> =
     Inr \<lparr>two_theta = 60, intensity = 10 / sqrt 3, indices = [- 1, 0, 0], g = 1\<rparr>"
    using ex_contribution_30 [of "\<lparr>hkl = (- 1, 0, 0), g_hkl = 1\<rparr>" "- 1" 0 0] by simp
  have c: "point_contribution 1 False ex_scs \<lparr>hkl = (0, 1, 0), g_hkl = sqrt 2\<rparr> =
     Inr \<lparr>two_theta = 90, intensity = 2 * sqrt 2, indices = [0, 1, 0], g = sqrt 2\<rparr>"
    using ex_contribution_45 [of "\<lparr>hkl = (0, 1, 0), g_hkl = sqrt 2\<rparr>" 0 1 0] by simp
  have d: "point_contribution 1 False ex_scs \<lparr>hkl = (0, - 1, 0), g_hkl = sqrt 2\<rparr> =
     Inr \<lparr>two_theta = 90, intensity = 2 * sqrt 2, indices = [0, - 1, 0], g = sqrt 2\<rparr>"
    using ex_contribution_45 [of "\<lparr>hkl = (0, - 1, 0), g_hkl = sqrt 2\<rparr>" 0 "- 1" 0] by simp
  show ?thesis
    by (simp add: a b c d aggregate_step_def empty_aggregator_def)
qed

lemma ex_max: "max (20 / sqrt 3) (4 * sqrt 2) = 20 / sqrt 3"
proof -
  have "sqrt 2 * sqrt 3 < 5" 
  proof -
    have "sqrt 2 * sqrt 3 = sqrt 6" by (simp add: real_sqrt_mult [symmetric])
    also have "\<dots> < 5" by (rule real_less_lsqrt) simp_all
    finally show ?thesis .
  qed
  then have "4 * sqrt 2 \<le> 20 / sqrt 3"
    by (simp add: field_simps)
  then show ?thesis by (simp add: max_def)
qed

lemma ex_unique_families:
  "unique_families [[1, 0, 0], [- 1, 0, 0]] = [([1, 0, 0], 2)]"
  "unique_families [[0, 1, 0], [0, - 1, 0]] = [([0, 1, 0], 2)]"
  by (simp_all add: unique_families_def)

lemma ex_build_pattern:
  "build_pattern ex_externals
     [(60, (20 / sqrt 3, [[1, 0, 0], [- 1, 0, 0]], 1)),
      (90, (4 * sqrt 2, [[0, 1, 0], [0, - 1, 0]], 1 / sqrt 2))]
   = Inr \<lparr>x = [60, 90], y = [20 / sqrt 3, 4 * sqrt 2],
          hkls = [[([1, 0, 0], 2)], [([0, 1, 0], 2)]], d_hkls = [1, 1 / sqrt 2]\<rparr>"
proof -
  have "1 \<le> sqrt 2" "1 \<le> sqrt 3" by simp_all
  then have "1 * 1 \<le> sqrt 2 * sqrt 3" by (intro mult_mono) simp_all
  then have "1 < 20000 * (sqrt 2 * sqrt 3)" by simp
  then show ?thesis
    by (simp add: build_pattern_def retained_def max_intensity_def Let_def ex_max
        exceeds_threshold_def ex_externals_def ex_unique_families)
qed

lemma ex_get_pattern_unscaled:
  "get_pattern ex_externals ex_calculator ex_structure False (Some (0, 90))
   = Inr \<lparr>x = [60, 90], y = [20 / sqrt 3, 4 * sqrt 2],
          hkls = [[([1, 0, 0], 2)], [([0, 1, 0], 2)]], d_hkls = [1, 1 / sqrt 2]\<rparr>"
proof -
  have l: "lattice ex_structure = ex_lattice" "is_hexagonal ex_lattice = False"
    by (simp_all add: ex_structure_def ex_lattice_def)
  have e: "TWO_THETA_TOL ex_externals = 1 / 100000" by (simp add: ex_externals_def)
  have r: "rectangular ex_scs" by (simp add: rectangular_def ex_scs_def)
  show ?thesis
    unfolding get_pattern_def ex_calculator_eq
    by (simp add: working_structure_def ex_radius_bounds l ex_flatten r e
        ex_processing_order ex_process_points ex_build_pattern
        del: process_points.simps)
qed

lemma ex_get_pattern_scaled:
  "get_pattern ex_externals ex_calculator ex_structure True (Some (0, 90))
   = Inr \<lparr>x = [60, 90], y = [100, 20 * sqrt 6],
          hkls = [[([1, 0, 0], 2)], [([0, 1, 0], 2)]], d_hkls = [1, 1 / sqrt 2]\<rparr>"
proof -
  have l: "lattice ex_structure = ex_lattice" "is_hexagonal ex_lattice = False"
    by (simp_all add: ex_structure_def ex_lattice_def)
  have e: "TWO_THETA_TOL ex_externals = 1 / 100000" by (simp add: ex_externals_def)
  have r: "rectangular ex_scs" by (simp add: rectangular_def ex_scs_def)
  have s6: "sqrt 6 = sqrt 2 * sqrt 3" by (simp add: real_sqrt_mult [symmetric])
  show ?thesis
    unfolding get_pattern_def ex_calculator_eq
    by (simp add: working_structure_def ex_radius_bounds l ex_flatten r e
        ex_processing_order ex_process_points ex_build_pattern normalize_max_def ex_max s6
        del: process_points.simps)
qed

subsection \<open>Angles of a pattern\<close>

lemma aggregate_step_merge:
  assumes "aggregate_step tol st c = Inr st'"
    and "\<exists>t \<in> set (two_thetas st). \<bar>t - two_theta c\<bar> < tol"
  shows "two_thetas st' = two_thetas st \<and> map fst (peaks st') = map fst (peaks st) \<and>
         (\<exists>t i hs d. find (\<lambda>t. \<bar>t - two_theta c\<bar> < tol) (two_thetas st) = Some t \<and>
            map_of (peaks st) t = Some (i, hs, d) \<and>
            map_of (peaks st') t = Some (i + intensity c, hs @ [indices c], d))"
proof -
  from assms(2) obtain t where t: "find (\<lambda>t. \<bar>t - two_theta c\<bar> < tol) (two_thetas st) = Some t"
    by (cases "find (\<lambda>t. \<bar>t - two_theta c\<bar> < tol) (two_thetas st)") (auto simp: find_None_iff)
  with assms(1) obtain i hs d where v: "map_of (peaks st) t = Some (i, hs, d)"
    by (auto simp: aggregate_step_def split: option.splits)
  with t assms(1)
  have st': "st' = st\<lparr>peaks := AList.update t (i + intensity c, hs @ [indices c], d) (peaks st)\<rparr>"
    by (simp add: aggregate_step_def)
  from v have "t \<in> set (map fst (peaks st))"
    by (metis domI dom_map_of_conv_image_fst set_map)
  then have "map fst (peaks st') = map fst (peaks st)"
    unfolding st' by (simp add: update_keys)
  moreover have "map_of (peaks st') t = Some (i + intensity c, hs @ [indices c], d)"
    unfolding st' by (simp add: update_conv')
  ultimately show ?thesis using t v st' by simp
qed

lemma get_pattern_x_separated:
  "(get_pattern ext self struc scaled rng = Inr pat \<longrightarrow>
      sorted_wrt (<) (x pat) \<and>
      (\<forall>i j. i < j \<and> j < length (x pat) \<longrightarrow> \<not> \<bar>x pat ! i - x pat ! j\<bar> < TWO_THETA_TOL ext))"
proof (intro impI)
  assume a: "get_pattern ext self struc scaled rng = Inr pat"
  from a obtain sp wl min_r max_r scs st xrd where
    pp: "process_points (TWO_THETA_TOL ext) wl (is_hexagonal (lattice (working_structure ext sp struc))) scs
        empty_aggregator
        (processing_order (recip_pts (lattice (working_structure ext sp struc)) min_r max_r)) = Inr st"
    and bp: "build_pattern ext (peaks st) = Inr xrd"
    and sc: "if scaled then normalize_max 100 xrd = Inr pat else pat = xrd"
    by (rule get_pattern_cases)
  have inv: "aggregator_inv (TWO_THETA_TOL ext) st"
    using aggregator_inv_empty pp by (rule process_points_inv)
  have xp: "x pat = map fst (retained (SCALED_INTENSITY_TOL ext) (peaks st))"
  proof (cases scaled)
    case True
    with sc have "x pat = x xrd" by (simp add: normalize_max_x)
    with bp show ?thesis by (simp add: build_pattern_x)
  next
    case False
    with sc bp show ?thesis by (simp add: build_pattern_x)
  qed
  have s: "sorted_wrt (<) (x pat)"
    unfolding xp retained_def using inv by (auto simp: aggregator_inv_def intro: sorted_keys_strict)
  have sub: "set (x pat) \<subseteq> set (two_thetas st)"
    unfolding xp using retained_subset[of "SCALED_INTENSITY_TOL ext" "peaks st"] inv
    by (auto simp: aggregator_inv_def)
  have "\<not> \<bar>x pat ! i - x pat ! j\<bar> < TWO_THETA_TOL ext" if "i < j" "j < length (x pat)" for i j
  proof -
    from s that have "x pat ! i < x pat ! j" by (simp add: sorted_wrt_nth_less)
    moreover have "x pat ! i \<in> set (two_thetas st)" "x pat ! j \<in> set (two_thetas st)"
      using sub that by (auto simp: subset_iff)
    ultimately have "x pat ! i \<noteq> x pat ! j \<longrightarrow> \<not> \<bar>x pat ! i - x pat ! j\<bar> < TWO_THETA_TOL ext"
      using inv unfolding aggregator_inv_def by blast
    with \<open>x pat ! i < x pat ! j\<close> show ?thesis by simp
  qed
  with s show "sorted_wrt (<) (x pat) \<and>
      (\<forall>i j. i < j \<and> j < length (x pat) \<longrightarrow> \<not> \<bar>x pat ! i - x pat ! j\<bar> < TWO_THETA_TOL ext)"
    by blast
qed

text \<open>
  C1.  In every pattern that \<^verbatim>\<open>get_pattern\<close> returns the angles are strictly
  ascending and no two of them are within \<^verbatim>\<open>TWO_THETA_TOL\<close> of each other; and a
  point whose angle is within the tolerance of a recorded angle leaves the list of
  recorded angles and the keys of \<^verbatim>\<open>peaks\<close> as they are, its intensity and tuple
  going to the entry of the first such angle.
\<close>

theorem pattern_angles_separated:
  "(get_pattern ext self struc scaled rng = Inr pat \<longrightarrow>
      sorted_wrt (<) (x pat) \<and>
      (\<forall>i j. i < j \<and> j < length (x pat) \<longrightarrow> \<not> \<bar>x pat ! i - x pat ! j\<bar> < TWO_THETA_TOL ext)) \<and>
   (aggregate_step tol st c = Inr st' \<and> (\<exists>t \<in> set (two_thetas st). \<bar>t - two_theta c\<bar> < tol) \<longrightarrow>
      two_thetas st' = two_thetas st \<and> map fst (peaks st') = map fst (peaks st) \<and>
      (\<exists>t i hs d. find (\<lambda>t. \<bar>t - two_theta c\<bar> < tol) (two_thetas st) = Some t \<and>
         map_of (peaks st) t = Some (i, hs, d) \<and>
         map_of (peaks st') t = Some (i + intensity c, hs @ [indices c], d)))"
  using get_pattern_x_separated [of ext self struc scaled rng pat]
    aggregate_step_merge [of tol st c st']
  by blast

theorem pattern_angles_separated_witness:
  "get_pattern ex_externals ex_calculator ex_structure True (Some (0, 90))
     = Inr \<lparr>x = [60, 90], y = [100, 20 * sqrt 6],
            hkls = [[([1, 0, 0], 2)], [([0, 1, 0], 2)]], d_hkls = [1, 1 / sqrt 2]\<rparr> \<and>
   sorted_wrt (<) [60, 90 :: real] \<and>
   \<not> \<bar>[60, 90 :: real] ! 0 - [60, 90] ! 1\<bar> < TWO_THETA_TOL ex_externals \<and>
   aggregate_step (1 / 100000) \<lparr>peaks = [(60, (5, [[1, 0, 0]], 1))], two_thetas = [60]\<rparr>
       \<lparr>two_theta = 60 + 1 / 1000000, intensity = 7, indices = [- 1, 0, 0], g = 1\<rparr>
     = Inr \<lparr>peaks = [(60, (12, [[1, 0, 0], [- 1, 0, 0]], 1))], two_thetas = [60]\<rparr> \<and>
   \<bar>60 - (60 + 1 / 1000000)\<bar> < (1 / 100000 :: real) \<and>
   map fst [(60 :: real, (12 :: real, [[1, 0, 0], [- 1, 0, 0 :: int]], 1 :: real))]
     = map fst [(60 :: real, (5 :: real, [[1, 0, 0 :: int]], 1 :: real))]"
proof -
  have s: "aggregate_step (1 / 100000) \<lparr>peaks = [(60, (5, [[1, 0, 0]], 1))], two_thetas = [60]\<rparr>
       \<lparr>two_theta = 60 + 1 / 1000000, intensity = 7, indices = [- 1, 0, 0], g = 1\<rparr>
     = Inr \<lparr>peaks = [(60, (12, [[1, 0, 0], [- 1, 0, 0]], 1))], two_thetas = [60]\<rparr>"
    by (simp add: aggregate_step_def)
  have n: "\<exists>t \<in> set [60 :: real]. \<bar>t - (60 + 1 / 1000000)\<bar> < 1 / 100000" by simp
  note t = pattern_angles_separated [of ex_externals ex_calculator ex_structure True "Some (0, 90)"
        "\<lparr>x = [60, 90], y = [100, 20 * sqrt 6],
            hkls = [[([1, 0, 0], 2)], [([0, 1, 0], 2)]], d_hkls = [1, 1 / sqrt 2]\<rparr>"
        "1 / 100000" "\<lparr>peaks = [(60, (5, [[1, 0, 0]], 1))], two_thetas = [60]\<rparr>"
        "\<lparr>two_theta = 60 + 1 / 1000000, intensity = 7, indices = [- 1, 0, 0], g = 1\<rparr>"
        "\<lparr>peaks = [(60, (12, [[1, 0, 0], [- 1, 0, 0]], 1))], two_thetas = [60]\<rparr>"]
  from t ex_get_pattern_scaled
  have a: "sorted_wrt (<) [60, 90 :: real]"
    and b: "\<forall>i j. i < j \<and> j < length [60, 90 :: real]
      \<longrightarrow> \<not> \<bar>[60, 90 :: real] ! i - [60, 90] ! j\<bar> < TWO_THETA_TOL ex_externals"
    by simp_all
  from b have "(0 :: nat) < 1 \<and> 1 < length [60, 90 :: real]
      \<longrightarrow> \<not> \<bar>[60, 90 :: real] ! 0 - [60, 90] ! 1\<bar> < TWO_THETA_TOL ex_externals"
    by blast
  then have b': "\<not> \<bar>[60, 90 :: real] ! 0 - [60, 90] ! 1\<bar> < TWO_THETA_TOL ex_externals"
    by simp
  from t s n
  have c: "map fst [(60 :: real, (12 :: real, [[1, 0, 0], [- 1, 0, 0 :: int]], 1 :: real))]
     = map fst [(60 :: real, (5 :: real, [[1, 0, 0 :: int]], 1 :: real))]"
    by simp
  from ex_get_pattern_scaled a b' s c show ?thesis by simp
qed

subsection \<open>The loop computes the clusters\<close>

lemma update_fresh: "k \<notin> fst ` set al \<Longrightarrow> AList.update k v al = al @ [(k, v)]"
  by (induction al) auto

lemma cluster_insert_new:
  "find (\<lambda>t. \<bar>t - two_theta c\<bar> < tol) (map (\<lambda>k. two_theta (hd k)) ks) = None
     \<Longrightarrow> cluster_insert tol c ks = ks @ [[c]]"
  by (induction ks) (auto split: if_splits)

lemma cluster_insert_merge:
  assumes "find (\<lambda>t. \<bar>t - two_theta c\<bar> < tol) (map (\<lambda>k. two_theta (hd k)) ks) = Some t"
    and "[] \<notin> set ks"
  shows "\<exists>i hs d. map_of (map peak_of_cluster ks) t = Some (i, hs, d) \<and>
           map peak_of_cluster (cluster_insert tol c ks)
             = AList.update t (i + intensity c, hs @ [indices c], d) (map peak_of_cluster ks) \<and>
           map (\<lambda>k. two_theta (hd k)) (cluster_insert tol c ks) = map (\<lambda>k. two_theta (hd k)) ks \<and>
           [] \<notin> set (cluster_insert tol c ks)"
  using assms
proof (induction ks)
  case Nil
  then show ?case by simp
next
  case (Cons k ks)
  show ?case
  proof (cases "\<bar>two_theta (hd k) - two_theta c\<bar> < tol")
    case True
    with Cons.prems have t: "t = two_theta (hd k)" and k: "k \<noteq> []" by auto
    from k have "hd (k @ [c]) = hd k" by simp
    with True t k Cons.prems(2) show ?thesis
      by (simp add: peak_of_cluster_def)
  next
    case False
    with Cons.prems have f: "find (\<lambda>t. \<bar>t - two_theta c\<bar> < tol) (map (\<lambda>k. two_theta (hd k)) ks) = Some t"
      and ne: "[] \<notin> set ks" by auto
    from f have "\<bar>t - two_theta c\<bar> < tol" by (auto dest: find_Some_mem)
    with False have tk: "two_theta (hd k) \<noteq> t" by auto
    from Cons.IH [OF f ne] obtain i hs d where
      "map_of (map peak_of_cluster ks) t = Some (i, hs, d)"
      "map peak_of_cluster (cluster_insert tol c ks)
             = AList.update t (i + intensity c, hs @ [indices c], d) (map peak_of_cluster ks)"
      "map (\<lambda>k. two_theta (hd k)) (cluster_insert tol c ks) = map (\<lambda>k. two_theta (hd k)) ks"
      "[] \<notin> set (cluster_insert tol c ks)"
      by blast
    moreover obtain v where "peak_of_cluster k = (two_theta (hd k), v)"
      by (simp add: peak_of_cluster_def)
    ultimately show ?thesis using False tk Cons.prems(2) by simp
  qed
qed


lemma aggregate_step_refines:
  assumes "0 < tol" and "represents ks st" and "aggregate_step tol st c = Inr st'"
  shows "represents (cluster_insert tol c ks) st'"
proof (cases "find (\<lambda>t. \<bar>t - two_theta c\<bar> < tol) (two_thetas st)")
  case None
  with assms(2) have n: "find (\<lambda>t. \<bar>t - two_theta c\<bar> < tol) (map (\<lambda>k. two_theta (hd k)) ks) = None"
    by (simp add: represents_def)
  then have ci: "cluster_insert tol c ks = ks @ [[c]]" by (rule cluster_insert_new)
  have "two_theta c \<notin> fst ` set (peaks st)"
  proof
    assume "two_theta c \<in> fst ` set (peaks st)"
    with assms(2) have "two_theta c \<in> set (two_thetas st)"
      by (force simp: represents_def peak_of_cluster_def)
    with None have "\<not> \<bar>two_theta c - two_theta c\<bar> < tol" by (auto simp: find_None_iff)
    with assms(1) show False by simp
  qed
  then have "AList.update (two_theta c) (intensity c, [indices c], 1 / g c) (peaks st)
               = peaks st @ [(two_theta c, (intensity c, [indices c], 1 / g c))]"
    by (rule update_fresh)
  with None assms(2,3) ci show ?thesis
    by (auto simp: aggregate_step_def represents_def peak_of_cluster_def)
next
  case (Some t)
  with assms(2) have f: "find (\<lambda>t. \<bar>t - two_theta c\<bar> < tol) (map (\<lambda>k. two_theta (hd k)) ks) = Some t"
    and ne: "[] \<notin> set ks"
    by (simp_all add: represents_def)
  from cluster_insert_merge [OF f ne] obtain i hs d where
      m: "map_of (map peak_of_cluster ks) t = Some (i, hs, d)"
      and u: "map peak_of_cluster (cluster_insert tol c ks)
             = AList.update t (i + intensity c, hs @ [indices c], d) (map peak_of_cluster ks)"
      and tt: "map (\<lambda>k. two_theta (hd k)) (cluster_insert tol c ks) = map (\<lambda>k. two_theta (hd k)) ks"
      and ne': "[] \<notin> set (cluster_insert tol c ks)"
    by blast
  from assms(2) have p: "peaks st = map peak_of_cluster ks"
    and q: "two_thetas st = map (\<lambda>k. two_theta (hd k)) ks"
    by (simp_all add: represents_def)
  from Some m assms(3) have "st' = st\<lparr>peaks := AList.update t (i + intensity c, hs @ [indices c], d) (peaks st)\<rparr>"
    by (simp add: aggregate_step_def p)
  with u tt ne' p q show ?thesis by (simp add: represents_def)
qed

lemma process_points_refines:
  assumes "0 < tol"
  shows "represents ks st \<Longrightarrow> process_points tol wl is_hex scs st pts = Inr st'
     \<Longrightarrow> represents (foldl (\<lambda>ks c. cluster_insert tol c ks) ks (contributions wl is_hex scs pts)) st'"
proof (induction pts arbitrary: ks st)
  case Nil
  then show ?case by (simp add: contributions_def)
next
  case (Cons pt pts)
  show ?case
  proof (cases "g_hkl pt \<noteq> 0")
    case False
    with Cons show ?thesis by (simp add: contributions_def)
  next
    case True
    with Cons.prems(2) obtain c st1 where
      c: "point_contribution wl is_hex scs pt = Inr c"
      and s: "aggregate_step tol st c = Inr st1"
      and r: "process_points tol wl is_hex scs st1 pts = Inr st'"
      by (auto split: sum.splits)
    from assms Cons.prems(1) s have "represents (cluster_insert tol c ks) st1"
      by (rule aggregate_step_refines)
    from Cons.IH [OF this r] True c show ?thesis by (simp add: contributions_def)
  qed
qed

lemma represents_empty: "represents [] empty_aggregator"
  by (simp add: represents_def empty_aggregator_def)

lemma sort_key_202_le:
  "sort_key_202 p \<le> sort_key_202 q \<longleftrightarrow>
     g_hkl p < g_hkl q \<or>
     g_hkl p = g_hkl q \<and>
       (fst (hkl q) < fst (hkl p) \<or>
        fst (hkl p) = fst (hkl q) \<and>
          (fst (snd (hkl q)) < fst (snd (hkl p)) \<or>
           fst (snd (hkl p)) = fst (snd (hkl q)) \<and> snd (snd (hkl q)) \<le> snd (snd (hkl p))))"
  by (cases "hkl p"; cases "hkl q") (auto simp: sort_key_202_def less_eq_prod_def less_prod_def)

text \<open>
  C2.  The loop visits the points in the order of a stable sort on the key
  \<open>(g, - h, - k, - l)\<close>, that is by magnitude ascending and then by the three Miller
  components descending.  With a positive tolerance, the state it reaches is the one of
  the clusters of the contributions in that order: each peak is keyed by the angle of
  the first point of its cluster and keeps the spacing of that point, its intensity is
  the sum over the cluster and its tuples are those of the cluster, in order.
\<close>

theorem merge_order_and_representative:
  assumes "0 < tol"
    and "process_points tol wl is_hex scs empty_aggregator (processing_order pts) = Inr st"
  shows "sorted (map sort_key_202 (processing_order pts)) \<and>
         (\<forall>key. filter (\<lambda>p. sort_key_202 p = key) (processing_order pts)
                 = filter (\<lambda>p. sort_key_202 p = key) pts) \<and>
         (\<forall>p q. sort_key_202 p \<le> sort_key_202 q \<longleftrightarrow>
            g_hkl p < g_hkl q \<or>
            g_hkl p = g_hkl q \<and>
              (fst (hkl q) < fst (hkl p) \<or>
               fst (hkl p) = fst (hkl q) \<and>
                 (fst (snd (hkl q)) < fst (snd (hkl p)) \<or>
                  fst (snd (hkl p)) = fst (snd (hkl q)) \<and>
                    snd (snd (hkl q)) \<le> snd (snd (hkl p))))) \<and>
         peaks st = map peak_of_cluster
                      (clusters tol (contributions wl is_hex scs (processing_order pts))) \<and>
         two_thetas st = map (\<lambda>k. two_theta (hd k))
                      (clusters tol (contributions wl is_hex scs (processing_order pts)))"
proof -
  have "sorted (map sort_key_202 (processing_order pts))"
    unfolding processing_order_def by (rule sorted_sort_key)
  moreover have "filter (\<lambda>p. sort_key_202 p = key) (processing_order pts)
                 = filter (\<lambda>p. sort_key_202 p = key) pts" for key
    unfolding processing_order_def by (rule sort_key_stable)
  moreover have "represents (clusters tol (contributions wl is_hex scs (processing_order pts))) st"
    unfolding clusters_def
    using assms(1) represents_empty assms(2) by (rule process_points_refines)
  ultimately show ?thesis
    using sort_key_202_le by (simp add: represents_def)
qed

theorem merge_order_and_representative_witness:
  "(0 :: real) < 1 / 100000 \<and>
   process_points (1 / 100000) 1 False ex_scs empty_aggregator
       (processing_order (recip_pts ex_lattice 0 (sqrt 2)))
     = Inr \<lparr>peaks = [(60, (20 / sqrt 3, [[1, 0, 0], [- 1, 0, 0]], 1)),
                     (90, (4 * sqrt 2, [[0, 1, 0], [0, - 1, 0]], 1 / sqrt 2))],
            two_thetas = [60, 90]\<rparr> \<and>
   map peak_of_cluster
     (clusters (1 / 100000)
        (contributions 1 False ex_scs (processing_order (recip_pts ex_lattice 0 (sqrt 2)))))
     = [(60, (20 / sqrt 3, [[1, 0, 0], [- 1, 0, 0]], 1)),
        (90, (4 * sqrt 2, [[0, 1, 0], [0, - 1, 0]], 1 / sqrt 2))] \<and>
   processing_order (recip_pts ex_lattice 0 (sqrt 2))
     = [\<lparr>hkl = (0, 0, 0), g_hkl = 0\<rparr>,
        \<lparr>hkl = (1, 0, 0), g_hkl = 1\<rparr>, \<lparr>hkl = (- 1, 0, 0), g_hkl = 1\<rparr>,
        \<lparr>hkl = (0, 1, 0), g_hkl = sqrt 2\<rparr>, \<lparr>hkl = (0, - 1, 0), g_hkl = sqrt 2\<rparr>]"
proof -
  have p: "process_points (1 / 100000) 1 False ex_scs empty_aggregator
       (processing_order (recip_pts ex_lattice 0 (sqrt 2)))
     = Inr \<lparr>peaks = [(60, (20 / sqrt 3, [[1, 0, 0], [- 1, 0, 0]], 1)),
                     (90, (4 * sqrt 2, [[0, 1, 0], [0, - 1, 0]], 1 / sqrt 2))],
            two_thetas = [60, 90]\<rparr>"
    unfolding ex_processing_order by (rule ex_process_points)
  have z: "(0 :: real) < 1 / 100000" by simp
  from merge_order_and_representative [OF z p] p z ex_processing_order
  show ?thesis by simp
qed

subsection \<open>Intensities\<close>

lemma lorentz_factor_nonneg:
  assumes "bragg_theta wl gg = Inr theta" and "lorentz_factor theta = Inr lf"
  shows "0 \<le> lf"
proof -
  from assms(1) have b: "- 1 \<le> wl * gg / 2" "wl * gg / 2 \<le> 1" and th: "theta = arcsin (wl * gg / 2)"
    by (auto simp: bragg_theta_def Let_def split: if_splits)
  from b have "- (pi / 2) \<le> theta" "theta \<le> pi / 2"
    unfolding th using arcsin_bounded [of "wl * gg / 2"] by simp_all
  then have "0 \<le> cos theta" by (rule cos_ge_zero)
  then have "0 \<le> (sin theta)\<^sup>2 * cos theta" by simp
  moreover have "0 \<le> 1 + (cos (2 * theta))\<^sup>2" by simp
  moreover from assms(2) have "lf = (1 + (cos (2 * theta))\<^sup>2) / ((sin theta)\<^sup>2 * cos theta)"
    by (auto simp: lorentz_factor_def Let_def split: if_splits)
  ultimately show ?thesis by (simp only: divide_nonneg_nonneg)
qed

lemma modulus_square_nonneg: "0 \<le> Re (f * cnj f)"
  by (simp add: complex_mult_cnj)

lemma point_contribution_nonneg:
  assumes "point_contribution wl is_hex scs pt = Inr c"
  shows "0 \<le> intensity c"
proof -
  define F where "F = f_hkl (g_hkl pt / 2 * (g_hkl pt / 2))
     (case hkl pt of (h, k, l) \<Rightarrow> (py_round h, py_round k, py_round l)) scs"
  from assms obtain theta where t: "bragg_theta wl (g_hkl pt) = Inr theta"
    by (auto simp: point_contribution_def Let_def split: sum.splits)
  with assms obtain lf where l: "lorentz_factor theta = Inr lf"
    by (auto simp: point_contribution_def Let_def split: sum.splits if_splits)
  from assms t l have c: "intensity c = Re (F * cnj F) * lf"
    by (auto simp: point_contribution_def Let_def F_def split: if_splits)
  from t l have "0 \<le> lf" by (rule lorentz_factor_nonneg)
  then show ?thesis unfolding c by (intro mult_nonneg_nonneg modulus_square_nonneg)
qed



lemma set_update_subset: "set (AList.update k v al) \<subseteq> insert (k, v) (set al)"
  by (induction al) auto

lemma aggregate_step_nonneg:
  assumes "nonneg_peaks (peaks st)" and "0 \<le> intensity c" and "aggregate_step tol st c = Inr st'"
  shows "nonneg_peaks (peaks st')"
proof (cases "find (\<lambda>t. \<bar>t - two_theta c\<bar> < tol) (two_thetas st)")
  case None
  with assms(3) have "peaks st' = AList.update (two_theta c) (intensity c, [indices c], 1 / g c) (peaks st)"
    by (auto simp: aggregate_step_def)
  with assms(1,2) set_update_subset [of "two_theta c" "(intensity c, [indices c], 1 / g c)" "peaks st"]
  show ?thesis by (auto simp: nonneg_peaks_def)
next
  case (Some t)
  with assms(3) obtain i hs d where m: "map_of (peaks st) t = Some (i, hs, d)"
    and p: "peaks st' = AList.update t (i + intensity c, hs @ [indices c], d) (peaks st)"
    by (auto simp: aggregate_step_def split: option.splits)
  from m have "(t, (i, hs, d)) \<in> set (peaks st)" by (rule map_of_SomeD)
  with assms(1) have "0 \<le> i" by (force simp: nonneg_peaks_def)
  with assms(1,2) p set_update_subset [of t "(i + intensity c, hs @ [indices c], d)" "peaks st"]
  show ?thesis by (auto simp: nonneg_peaks_def)
qed

lemma process_points_nonneg:
  "nonneg_peaks (peaks st) \<Longrightarrow> process_points tol wl is_hex scs st pts = Inr st'
     \<Longrightarrow> nonneg_peaks (peaks st')"
proof (induction pts arbitrary: st)
  case Nil
  then show ?case by simp
next
  case (Cons pt pts)
  show ?case
  proof (cases "g_hkl pt \<noteq> 0")
    case False
    with Cons show ?thesis by simp
  next
    case True
    with Cons.prems(2) obtain c st1 where
      c: "point_contribution wl is_hex scs pt = Inr c"
      and s: "aggregate_step tol st c = Inr st1"
      and r: "process_points tol wl is_hex scs st1 pts = Inr st'"
      by (auto split: sum.splits)
    from c have "0 \<le> intensity c" by (rule point_contribution_nonneg)
    with Cons.prems(1) have "nonneg_peaks (peaks st1)" using s by (rule aggregate_step_nonneg)
    then show ?thesis using r by (rule Cons.IH)
  qed
qed

lemma max_intensity_ge: "kv \<in> set ps \<Longrightarrow> fst (snd kv) \<le> max_intensity ps"
  unfolding max_intensity_def by (rule Max_ge) auto

lemma max_intensity_mem: "ps \<noteq> [] \<Longrightarrow> \<exists>kv \<in> set ps. fst (snd kv) = max_intensity ps"
proof -
  assume "ps \<noteq> []"
  then have "Max (set (map (\<lambda>kv. fst (snd kv)) ps)) \<in> set (map (\<lambda>kv. fst (snd kv)) ps)"
    by (intro Max_in) auto
  then have "max_intensity ps \<in> (\<lambda>kv. fst (snd kv)) ` set ps"
    by (simp only: max_intensity_def set_map)
  then show ?thesis by (metis (no_types, lifting) imageE)
qed

lemma retained_max:
  assumes "nonneg_peaks ps" and "kv \<in> set (retained itol ps)"
  shows "0 < max_intensity ps \<and> (\<exists>kv' \<in> set (retained itol ps). fst (snd kv') = max_intensity ps)"
proof -
  from assms(2) have kv: "kv \<in> set ps"
    and e: "exceeds_threshold itol (max_intensity ps) (fst (snd kv))"
    by (auto simp: retained_def)
  then have ne: "ps \<noteq> []" by auto
  from kv have le: "fst (snd kv) \<le> max_intensity ps" by (rule max_intensity_ge)
  from assms(1) kv have "0 \<le> fst (snd kv)" by (auto simp: nonneg_peaks_def)
  with le have m0: "0 \<le> max_intensity ps" by simp
  have mne: "max_intensity ps \<noteq> 0"
  proof
    assume z: "max_intensity ps = 0"
    with e have "0 < fst (snd kv)" by (simp add: exceeds_threshold_def)
    with le z show False by simp
  qed
  with m0 have pos: "0 < max_intensity ps" by simp
  from e mne have "itol < fst (snd kv) / max_intensity ps * 100"
    by (simp add: exceeds_threshold_def)
  moreover from le pos have "fst (snd kv) / max_intensity ps \<le> 1" by (simp add: field_simps)
  then have "fst (snd kv) / max_intensity ps * 100 \<le> 1 * 100"
    by (intro mult_right_mono) simp_all
  ultimately have "itol < 100" by simp
  with mne have em: "exceeds_threshold itol (max_intensity ps) (max_intensity ps)"
    by (simp add: exceeds_threshold_def)
  from ne obtain kv' where "kv' \<in> set ps" "fst (snd kv') = max_intensity ps"
    using max_intensity_mem by blast
  with em have "kv' \<in> set (retained itol ps)" by (simp add: retained_def)
  with pos \<open>fst (snd kv') = max_intensity ps\<close> show ?thesis by blast
qed

lemma build_pattern_y:
  "build_pattern ext ps = Inr pat
     \<Longrightarrow> y pat = map (\<lambda>kv. fst (snd kv)) (retained (SCALED_INTENSITY_TOL ext) ps)"
  by (auto simp: build_pattern_def Let_def case_prod_beta split: if_splits)

lemma build_pattern_y_nonneg:
  assumes "nonneg_peaks ps" and "build_pattern ext ps = Inr pat"
  shows "\<forall>v \<in> set (y pat). 0 \<le> v"
  using assms retained_subset [of "SCALED_INTENSITY_TOL ext" ps]
  by (auto simp: build_pattern_y nonneg_peaks_def)

lemma build_pattern_y_max:
  assumes "nonneg_peaks ps" and "build_pattern ext ps = Inr pat" and "y pat \<noteq> []"
  shows "0 < Max (set (y pat)) \<and> Max (set (y pat)) = max_intensity ps"
proof -
  have yp: "y pat = map (\<lambda>kv. fst (snd kv)) (retained (SCALED_INTENSITY_TOL ext) ps)"
    using assms(2) by (rule build_pattern_y)
  with assms(3) obtain kv where "kv \<in> set (retained (SCALED_INTENSITY_TOL ext) ps)"
    by (cases "retained (SCALED_INTENSITY_TOL ext) ps") auto
  with assms(1) have pos: "0 < max_intensity ps"
    and "\<exists>kv' \<in> set (retained (SCALED_INTENSITY_TOL ext) ps). fst (snd kv') = max_intensity ps"
    using retained_max by blast+
  then have mem: "max_intensity ps \<in> set (y pat)" unfolding yp by force
  have "v \<le> max_intensity ps" if "v \<in> set (y pat)" for v
    using that retained_subset [of "SCALED_INTENSITY_TOL ext" ps] unfolding yp
    by (auto intro: max_intensity_ge)
  with mem have "Max (set (y pat)) = max_intensity ps" by (intro Max_eqI) auto
  with pos show ?thesis by simp
qed

lemma normalize_max_100:
  assumes "normalize_max 100 xrd = Inr pat" and "0 < Max (set (y xrd))"
  shows "y pat \<noteq> [] \<and> Max (set (y pat)) = 100"
proof -
  let ?M = "Max (set (y xrd))"
  from assms(1) have ne: "y xrd \<noteq> []" and yp: "y pat = map (\<lambda>i. i / (?M / 100)) (y xrd)"
    by (auto simp: normalize_max_def split: if_splits)
  from ne have "?M \<in> set (y xrd)" by (intro Max_in) auto
  then have "?M / (?M / 100) \<in> set (y pat)" unfolding yp by force
  with assms(2) have mem: "100 \<in> set (y pat)" by simp
  have "v \<le> 100" if "v \<in> set (y pat)" for v
  proof -
    from that obtain i where i: "i \<in> set (y xrd)" and v: "v = i / (?M / 100)"
      unfolding yp by auto
    from i have "i \<le> ?M" by simp
    with assms(2) show ?thesis unfolding v by (simp add: field_simps)
  qed
  with mem have "Max (set (y pat)) = 100" by (intro Max_eqI) auto
  with ne yp show ?thesis by simp
qed

lemma normalize_max_nonneg:
  assumes "normalize_max 100 xrd = Inr pat" and "\<forall>v \<in> set (y xrd). 0 \<le> v"
  shows "\<forall>v \<in> set (y pat). 0 \<le> v"
proof -
  from assms(1) have ne: "y xrd \<noteq> []"
    and yp: "y pat = map (\<lambda>i. i / (Max (set (y xrd)) / 100)) (y xrd)"
    by (auto simp: normalize_max_def split: if_splits)
  from ne have "Max (set (y xrd)) \<in> set (y xrd)" by (intro Max_in) auto
  with assms(2) have "0 \<le> Max (set (y xrd))" by blast
  with assms(2) show ?thesis unfolding yp by auto
qed

lemma get_pattern_scaled_unscaled:
  assumes "get_pattern ext self struc True rng = Inr pat"
  shows "\<exists>xrd. get_pattern ext self struc False rng = Inr xrd \<and> normalize_max 100 xrd = Inr pat"
  using assms unfolding get_pattern_def Let_def
  by (auto split: option.splits sum.splits if_splits prod.splits)

lemma nonneg_peaks_empty: "nonneg_peaks (peaks empty_aggregator)"
  by (simp add: nonneg_peaks_def empty_aggregator_def)

text \<open>
  C3.  Every intensity of a returned pattern is non-negative; and when
  \<^verbatim>\<open>scaled\<close> is true the pattern has a peak, its greatest intensity is exactly
  100, and its intensities are those of the unscaled pattern, each divided once by the
  same factor (the unscaled maximum over 100).
\<close>

theorem intensities_nonneg_and_scaled_max:
  "get_pattern ext self struc scaled rng = Inr pat \<longrightarrow>
     (\<forall>v \<in> set (y pat). 0 \<le> v) \<and>
     (scaled \<longrightarrow> y pat \<noteq> [] \<and> Max (set (y pat)) = 100 \<and>
        (\<exists>xrd. get_pattern ext self struc False rng = Inr xrd \<and>
           y pat = map (\<lambda>v. v / (Max (set (y xrd)) / 100)) (y xrd)))"
proof
  assume a: "get_pattern ext self struc scaled rng = Inr pat"
  from a obtain sp wl min_r max_r scs st xrd where
    pp: "process_points (TWO_THETA_TOL ext) wl (is_hexagonal (lattice (working_structure ext sp struc))) scs
        empty_aggregator
        (processing_order (recip_pts (lattice (working_structure ext sp struc)) min_r max_r)) = Inr st"
    and bp: "build_pattern ext (peaks st) = Inr xrd"
    and sc: "if scaled then normalize_max 100 xrd = Inr pat else pat = xrd"
    by (rule get_pattern_cases)
  have nn: "nonneg_peaks (peaks st)"
    using nonneg_peaks_empty pp by (rule process_points_nonneg)
  then have xn: "\<forall>v \<in> set (y xrd). 0 \<le> v" using bp by (rule build_pattern_y_nonneg)
  show "(\<forall>v \<in> set (y pat). 0 \<le> v) \<and>
     (scaled \<longrightarrow> y pat \<noteq> [] \<and> Max (set (y pat)) = 100 \<and>
        (\<exists>xrd. get_pattern ext self struc False rng = Inr xrd \<and>
           y pat = map (\<lambda>v. v / (Max (set (y xrd)) / 100)) (y xrd)))"
  proof (cases scaled)
    case False
    with sc xn show ?thesis by simp
  next
    case True
    with sc have n: "normalize_max 100 xrd = Inr pat" by simp
    then have ne: "y xrd \<noteq> []" by (auto simp: normalize_max_def split: if_splits)
    with nn bp have "0 < Max (set (y xrd))" using build_pattern_y_max by blast
    with n have m: "y pat \<noteq> [] \<and> Max (set (y pat)) = 100" by (rule normalize_max_100)
    from n xn have p: "\<forall>v \<in> set (y pat). 0 \<le> v" by (rule normalize_max_nonneg)
    from a True have "get_pattern ext self struc True rng = Inr pat" by simp
    then obtain xrd' where
      u: "get_pattern ext self struc False rng = Inr xrd'" and n': "normalize_max 100 xrd' = Inr pat"
      using get_pattern_scaled_unscaled by blast
    from n' have "y pat = map (\<lambda>v. v / (Max (set (y xrd')) / 100)) (y xrd')"
      by (auto simp: normalize_max_def split: if_splits)
    with u m p show ?thesis by blast
  qed
qed

theorem intensities_nonneg_and_scaled_max_witness:
  "get_pattern ex_externals ex_calculator ex_structure True (Some (0, 90))
     = Inr \<lparr>x = [60, 90], y = [100, 20 * sqrt 6],
            hkls = [[([1, 0, 0], 2)], [([0, 1, 0], 2)]], d_hkls = [1, 1 / sqrt 2]\<rparr> \<and>
   (0 :: real) \<le> 100 \<and> 0 \<le> 20 * sqrt 6 \<and> [100, 20 * sqrt 6] \<noteq> [] \<and>
   Max (set [100, 20 * sqrt 6]) = 100"
  using intensities_nonneg_and_scaled_max [of ex_externals ex_calculator ex_structure True
      "Some (0, 90)" "\<lparr>x = [60, 90], y = [100, 20 * sqrt 6],
            hkls = [[([1, 0, 0], 2)], [([0, 1, 0], 2)]], d_hkls = [1, 1 / sqrt 2]\<rparr>"]
    ex_get_pattern_scaled
  by simp

subsection \<open>The peaks that are retained\<close>

lemma get_pattern_via_peaks:
  "get_pattern ext self struc scaled rng =
     (case aggregated_peaks ext self struc rng of
        Inl e \<Rightarrow> Inl e
      | Inr ps \<Rightarrow>
          (case build_pattern ext ps of
             Inl e \<Rightarrow> Inl e
           | Inr xrd \<Rightarrow> if scaled then normalize_max 100 xrd else Inr xrd))"
  unfolding get_pattern_def aggregated_peaks_def Let_def
  by (auto split: option.splits sum.splits prod.splits)

lemma aggregated_peaks_props:
  assumes "aggregated_peaks ext self struc rng = Inr ps"
  shows "distinct (map fst ps) \<and> nonneg_peaks ps"
proof -
  from assms obtain tol wl is_hex scs pts st where
    pp: "process_points tol wl is_hex scs empty_aggregator pts = Inr st" and ps: "ps = peaks st"
    unfolding aggregated_peaks_def Let_def
    by (auto split: option.splits sum.splits prod.splits if_splits)
  from aggregator_inv_empty pp have "aggregator_inv tol st" by (rule process_points_inv)
  moreover from nonneg_peaks_empty pp have "nonneg_peaks (peaks st)" by (rule process_points_nonneg)
  ultimately show ?thesis unfolding ps by (simp add: aggregator_inv_def)
qed

lemma exceeds_threshold_percentage:
  assumes "kv \<in> set ps"
  shows "exceeds_threshold itol (max_intensity ps) (fst (snd kv)) \<longleftrightarrow>
           max_intensity ps \<noteq> 0 \<and> itol < fst (snd kv) / max_intensity ps * 100"
  using max_intensity_ge [OF assms] by (auto simp: exceeds_threshold_def)

lemma build_pattern_fields:
  assumes "build_pattern ext ps = Inr xrd"
  shows "x xrd = map fst (retained (SCALED_INTENSITY_TOL ext) ps)"
    and "y xrd = map (\<lambda>kv. fst (snd kv)) (retained (SCALED_INTENSITY_TOL ext) ps)"
    and "hkls xrd = map (\<lambda>kv. get_unique_families ext (fst (snd (snd kv))))
                      (retained (SCALED_INTENSITY_TOL ext) ps)"
    and "d_hkls xrd = map (\<lambda>kv. snd (snd (snd kv))) (retained (SCALED_INTENSITY_TOL ext) ps)"
  using assms by (auto simp: build_pattern_def Let_def split: if_splits)

lemma normalize_max_fields:
  assumes "normalize_max v xrd = Inr pat"
  shows "x pat = x xrd" and "hkls pat = hkls xrd" and "d_hkls pat = d_hkls xrd"
    and "y pat = map (\<lambda>i. i / (Max (set (y xrd)) / v)) (y xrd)" and "y xrd \<noteq> []"
  using assms by (auto simp: normalize_max_def split: if_splits)

lemma retained_keys:
  assumes "distinct (map fst ps)"
  shows "k \<in> fst ` set (retained itol ps) \<longleftrightarrow>
           (\<exists>v. map_of ps k = Some v \<and> max_intensity ps \<noteq> 0 \<and>
                itol < fst v / max_intensity ps * 100)"
proof
  assume "k \<in> fst ` set (retained itol ps)"
  then obtain v where kv: "(k, v) \<in> set ps"
    and e: "exceeds_threshold itol (max_intensity ps) (fst v)"
    by (auto simp: retained_def)
  from kv e have "max_intensity ps \<noteq> 0 \<and> itol < fst v / max_intensity ps * 100"
    using exceeds_threshold_percentage [of "(k, v)" ps itol] by simp
  moreover from assms kv have "map_of ps k = Some v" by simp
  ultimately show "\<exists>v. map_of ps k = Some v \<and> max_intensity ps \<noteq> 0 \<and>
                itol < fst v / max_intensity ps * 100" by blast
next
  assume "\<exists>v. map_of ps k = Some v \<and> max_intensity ps \<noteq> 0 \<and>
                itol < fst v / max_intensity ps * 100"
  then obtain v where m: "map_of ps k = Some v"
    and p: "max_intensity ps \<noteq> 0 \<and> itol < fst v / max_intensity ps * 100" by blast
  from m have kv: "(k, v) \<in> set ps" by (rule map_of_SomeD)
  with p have "exceeds_threshold itol (max_intensity ps) (fst v)"
    using exceeds_threshold_percentage [of "(k, v)" ps itol] by simp
  with kv have "(k, v) \<in> set (retained itol ps)" by (simp add: retained_def)
  then show "k \<in> fst ` set (retained itol ps)" by force
qed

lemma retained_nth:
  assumes "distinct (map fst ps)" and "i < length (retained itol ps)"
  shows "map_of ps (fst (retained itol ps ! i)) = Some (snd (retained itol ps ! i))"
proof -
  from assms(2) have "retained itol ps ! i \<in> set (retained itol ps)" by simp
  with retained_subset [of itol ps] have "retained itol ps ! i \<in> set ps" by blast
  then have "(fst (retained itol ps ! i), snd (retained itol ps ! i)) \<in> set ps" by simp
  with assms(1) show ?thesis by (simp only: map_of_eq_Some_iff)
qed

text \<open>
  C4, amended.  The angles of the returned pattern are exactly the keys of the
  aggregated peaks whose intensity, as a percentage of the maximum, exceeds
  \<^verbatim>\<open>SCALED_INTENSITY_TOL\<close> (none when the maximum is zero); a retained peak keeps
  its families and its spacing; it keeps its intensity when \<^verbatim>\<open>scaled\<close> is false,
  and has it divided by the maximum over 100 when \<^verbatim>\<open>scaled\<close> is true.
\<close>

theorem retained_peaks:
  "get_pattern ext self struc scaled rng = Inr pat \<longrightarrow>
     (\<exists>ps. aggregated_peaks ext self struc rng = Inr ps \<and>
        length (y pat) = length (x pat) \<and> length (hkls pat) = length (x pat) \<and>
        length (d_hkls pat) = length (x pat) \<and>
        (\<forall>k. k \<in> set (x pat) \<longleftrightarrow>
           (\<exists>v. map_of ps k = Some v \<and> max_intensity ps \<noteq> 0 \<and>
                SCALED_INTENSITY_TOL ext < fst v / max_intensity ps * 100)) \<and>
        (\<forall>i < length (x pat). \<exists>v. map_of ps (x pat ! i) = Some v \<and>
           hkls pat ! i = get_unique_families ext (fst (snd v)) \<and>
           d_hkls pat ! i = snd (snd v) \<and>
           y pat ! i = (if scaled then fst v / (max_intensity ps / 100) else fst v)))"
proof
  assume a: "get_pattern ext self struc scaled rng = Inr pat"
  then obtain ps xrd where ps: "aggregated_peaks ext self struc rng = Inr ps"
    and bp: "build_pattern ext ps = Inr xrd"
    and sc: "if scaled then normalize_max 100 xrd = Inr pat else pat = xrd"
    unfolding get_pattern_via_peaks by (auto split: sum.splits if_splits)
  let ?R = "retained (SCALED_INTENSITY_TOL ext) ps"
  from ps have d: "distinct (map fst ps)" and nn: "nonneg_peaks ps"
    using aggregated_peaks_props by blast+
  note f = build_pattern_fields [OF bp]
  have xp: "x pat = map fst ?R" and hp: "hkls pat = map (\<lambda>kv. get_unique_families ext (fst (snd (snd kv)))) ?R"
    and dp: "d_hkls pat = map (\<lambda>kv. snd (snd (snd kv))) ?R"
    using sc f by (auto split: if_splits dest: normalize_max_fields)
  have yp: "y pat = map (\<lambda>kv. if scaled then fst (snd kv) / (max_intensity ps / 100) else fst (snd kv)) ?R"
  proof (cases scaled)
    case False
    with sc f show ?thesis by simp
  next
    case True
    with sc have n: "normalize_max 100 xrd = Inr pat" by simp
    from normalize_max_fields(5) [OF n] nn bp have "Max (set (y xrd)) = max_intensity ps"
      using build_pattern_y_max by blast
    with normalize_max_fields(4) [OF n] f(2) True show ?thesis by simp
  qed
  have keys: "\<forall>k. k \<in> set (x pat) \<longleftrightarrow>
           (\<exists>v. map_of ps k = Some v \<and> max_intensity ps \<noteq> 0 \<and>
                SCALED_INTENSITY_TOL ext < fst v / max_intensity ps * 100)"
    unfolding xp using retained_keys [OF d, of _ "SCALED_INTENSITY_TOL ext"] by simp
  have items: "\<forall>i < length (x pat). \<exists>v. map_of ps (x pat ! i) = Some v \<and>
           hkls pat ! i = get_unique_families ext (fst (snd v)) \<and>
           d_hkls pat ! i = snd (snd v) \<and>
           y pat ! i = (if scaled then fst v / (max_intensity ps / 100) else fst v)"
  proof (intro allI impI)
    fix i assume "i < length (x pat)"
    then have i: "i < length ?R" by (simp add: xp)
    with d have "map_of ps (fst (?R ! i)) = Some (snd (?R ! i))" by (rule retained_nth)
    with i show "\<exists>v. map_of ps (x pat ! i) = Some v \<and>
           hkls pat ! i = get_unique_families ext (fst (snd v)) \<and>
           d_hkls pat ! i = snd (snd v) \<and>
           y pat ! i = (if scaled then fst v / (max_intensity ps / 100) else fst v)"
      unfolding xp hp dp yp by simp
  qed
  from ps keys items show "\<exists>ps. aggregated_peaks ext self struc rng = Inr ps \<and>
        length (y pat) = length (x pat) \<and> length (hkls pat) = length (x pat) \<and>
        length (d_hkls pat) = length (x pat) \<and>
        (\<forall>k. k \<in> set (x pat) \<longleftrightarrow>
           (\<exists>v. map_of ps k = Some v \<and> max_intensity ps \<noteq> 0 \<and>
                SCALED_INTENSITY_TOL ext < fst v / max_intensity ps * 100)) \<and>
        (\<forall>i < length (x pat). \<exists>v. map_of ps (x pat ! i) = Some v \<and>
           hkls pat ! i = get_unique_families ext (fst (snd v)) \<and>
           d_hkls pat ! i = snd (snd v) \<and>
           y pat ! i = (if scaled then fst v / (max_intensity ps / 100) else fst v))"
    unfolding xp hp dp yp by (intro exI [of _ ps]) simp
qed

lemma ex_aggregated_peaks:
  "aggregated_peaks ex_externals ex_calculator ex_structure (Some (0, 90))
   = Inr [(60, (20 / sqrt 3, [[1, 0, 0], [- 1, 0, 0]], 1)),
          (90, (4 * sqrt 2, [[0, 1, 0], [0, - 1, 0]], 1 / sqrt 2))]"
proof -
  have l: "lattice ex_structure = ex_lattice" "is_hexagonal ex_lattice = False"
    by (simp_all add: ex_structure_def ex_lattice_def)
  have e: "TWO_THETA_TOL ex_externals = 1 / 100000" by (simp add: ex_externals_def)
  have r: "rectangular ex_scs" by (simp add: rectangular_def ex_scs_def)
  show ?thesis
    unfolding aggregated_peaks_def ex_calculator_eq
    by (simp add: working_structure_def ex_radius_bounds l ex_flatten r e
        ex_processing_order ex_process_points del: process_points.simps)
qed

text \<open>
  C4, as stated, fails for the pattern that is returned when \<^verbatim>\<open>scaled\<close> is true
  (the default): on the worked input the peak at 60 degrees was accumulated with
  intensity \<open>20 / sqrt 3\<close> and is returned with intensity 100.
\<close>

theorem scaled_pattern_rescales_intensity:
  "aggregated_peaks ex_externals ex_calculator ex_structure (Some (0, 90))
     = Inr [(60, (20 / sqrt 3, [[1, 0, 0], [- 1, 0, 0]], 1)),
            (90, (4 * sqrt 2, [[0, 1, 0], [0, - 1, 0]], 1 / sqrt 2))] \<and>
   get_pattern ex_externals ex_calculator ex_structure True (Some (0, 90))
     = Inr \<lparr>x = [60, 90], y = [100, 20 * sqrt 6],
            hkls = [[([1, 0, 0], 2)], [([0, 1, 0], 2)]], d_hkls = [1, 1 / sqrt 2]\<rparr> \<and>
   (100 :: real) \<noteq> 20 / sqrt 3"
proof -
  have "1 \<le> sqrt 3" by simp
  then have "20 / sqrt 3 \<le> 20 / 1" by (intro divide_left_mono) simp_all
  then have "(100 :: real) \<noteq> 20 / sqrt 3" by simp
  with ex_aggregated_peaks ex_get_pattern_scaled show ?thesis by simp
qed

theorem retained_peaks_witness:
  "get_pattern ex_externals ex_calculator ex_structure False (Some (0, 90))
     = Inr \<lparr>x = [60, 90], y = [20 / sqrt 3, 4 * sqrt 2],
            hkls = [[([1, 0, 0], 2)], [([0, 1, 0], 2)]], d_hkls = [1, 1 / sqrt 2]\<rparr> \<and>
   (\<exists>ps. aggregated_peaks ex_externals ex_calculator ex_structure (Some (0, 90)) = Inr ps \<and>
      (\<exists>v. map_of ps 60 = Some v \<and> max_intensity ps \<noteq> 0 \<and>
           SCALED_INTENSITY_TOL ex_externals < fst v / max_intensity ps * 100) \<and>
      (\<exists>v. map_of ps 90 = Some v \<and>
           [[([1, 0, 0], 2)], [([0, 1, 0], 2)]] ! 1 = get_unique_families ex_externals (fst (snd v)) \<and>
           [1, 1 / sqrt 2] ! 1 = snd (snd v) \<and> [20 / sqrt 3, 4 * sqrt 2] ! 1 = fst v))"
proof -
  let ?P = "\<lparr>x = [60, 90], y = [20 / sqrt 3, 4 * sqrt 2],
            hkls = [[([1, 0, 0], 2)], [([0, 1, 0], 2)]], d_hkls = [1, 1 / sqrt 2]\<rparr>"
  from retained_peaks [of ex_externals ex_calculator ex_structure False "Some (0, 90)" ?P]
    ex_get_pattern_unscaled
  obtain ps where ps: "aggregated_peaks ex_externals ex_calculator ex_structure (Some (0, 90)) = Inr ps"
    and k: "\<forall>k. k \<in> set (x ?P) \<longleftrightarrow>
           (\<exists>v. map_of ps k = Some v \<and> max_intensity ps \<noteq> 0 \<and>
                SCALED_INTENSITY_TOL ex_externals < fst v / max_intensity ps * 100)"
    and i: "\<forall>i < length (x ?P). \<exists>v. map_of ps (x ?P ! i) = Some v \<and>
           hkls ?P ! i = get_unique_families ex_externals (fst (snd v)) \<and>
           d_hkls ?P ! i = snd (snd v) \<and>
           y ?P ! i = (if False then fst v / (max_intensity ps / 100) else fst v)"
    by blast
  from k have "60 \<in> set (x ?P) \<longleftrightarrow>
           (\<exists>v. map_of ps 60 = Some v \<and> max_intensity ps \<noteq> 0 \<and>
                SCALED_INTENSITY_TOL ex_externals < fst v / max_intensity ps * 100)" by blast
  then have a: "\<exists>v. map_of ps 60 = Some v \<and> max_intensity ps \<noteq> 0 \<and>
                SCALED_INTENSITY_TOL ex_externals < fst v / max_intensity ps * 100" by simp
  from i have "1 < length (x ?P) \<longrightarrow> (\<exists>v. map_of ps (x ?P ! 1) = Some v \<and>
           hkls ?P ! 1 = get_unique_families ex_externals (fst (snd v)) \<and>
           d_hkls ?P ! 1 = snd (snd v) \<and>
           y ?P ! 1 = (if False then fst v / (max_intensity ps / 100) else fst v))" by blast
  then have b: "\<exists>v. map_of ps 90 = Some v \<and>
           [[([1, 0, 0], 2)], [([0, 1, 0], 2)]] ! 1 = get_unique_families ex_externals (fst (snd v)) \<and>
           [1, 1 / sqrt 2] ! 1 = snd (snd v) \<and> [20 / sqrt 3, 4 * sqrt 2] ! 1 = fst v"
    by simp
  from ex_get_pattern_unscaled ps a b show ?thesis by blast
qed

subsection \<open>The domain of the angle computation\<close>

lemma bragg_theta_error_iff:
  assumes "0 < wl" and "0 \<le> gg"
  shows "bragg_theta wl gg = Inl MathDomainError \<longleftrightarrow> 2 / wl < gg"
proof -
  from assms have "0 \<le> wl * gg" by simp
  then have "\<not> wl * gg / 2 < - 1" by simp
  moreover from assms(1) have "1 < wl * gg / 2 \<longleftrightarrow> 2 / wl < gg"
    by (simp add: field_simps)
  ultimately show ?thesis by (simp add: bragg_theta_def Let_def)
qed

lemma bragg_theta_cases:
  "bragg_theta wl gg = Inl MathDomainError \<or> bragg_theta wl gg = Inr (arcsin (wl * gg / 2))"
  by (simp add: bragg_theta_def Let_def)

lemma radius_bounds_max:
  assumes "0 < wl" and "radius_bounds wl rng = Inr (min_r, max_r)"
  shows "max_r \<le> 2 / wl"
proof (cases rng)
  case None
  with assms show ?thesis by (simp add: radius_bounds_def)
next
  case (Some p)
  obtain t0 t1 where p: "p = (t0, t1)" by (cases p)
  with Some assms have m: "max_r = 2 * sin (radians (t1 / 2)) / wl"
    by (simp add: radius_bounds_def)
  have "2 * sin (radians (t1 / 2)) \<le> 2 * 1" by (intro mult_left_mono) simp_all
  with assms(1) show ?thesis unfolding m by (simp add: divide_right_mono)
qed

lemma bragg_theta_in_window:
  assumes "0 < wl" and "0 \<le> gg" and "radius_bounds wl rng = Inr (min_r, max_r)" and "gg \<le> max_r"
  shows "bragg_theta wl gg = Inr (arcsin (wl * gg / 2))"
proof -
  from assms(1,3) have "max_r \<le> 2 / wl" by (rule radius_bounds_max)
  with assms(4) have "\<not> 2 / wl < gg" by simp
  with assms(1,2) have "bragg_theta wl gg \<noteq> Inl MathDomainError"
    by (simp add: bragg_theta_error_iff)
  with bragg_theta_cases [of wl gg] show ?thesis by simp
qed

lemma bragg_theta_nonzero:
  assumes "wl \<noteq> 0" and "gg \<noteq> 0" and "bragg_theta wl gg = Inr theta"
  shows "theta \<noteq> 0 \<and> sin theta \<noteq> 0"
proof -
  from assms(3) have b: "- 1 \<le> wl * gg / 2" "wl * gg / 2 \<le> 1" and th: "theta = arcsin (wl * gg / 2)"
    by (auto simp: bragg_theta_def Let_def split: if_splits)
  from b have "sin theta = wl * gg / 2" unfolding th by (rule sin_arcsin)
  moreover from assms(1,2) have "wl * gg / 2 \<noteq> 0" by simp
  ultimately have "sin theta \<noteq> 0" by (simp only:) simp
  then show ?thesis by auto
qed

lemma lorentz_factor_error_iff:
  assumes "sin theta \<noteq> 0"
  shows "lorentz_factor theta = Inl ZeroDivisionError \<longleftrightarrow> cos theta = 0"
  using assms by (simp add: lorentz_factor_def Let_def)

lemma point_contribution_no_domain_error:
  assumes "bragg_theta wl (g_hkl pt) = Inr theta"
  shows "point_contribution wl is_hex scs pt \<noteq> Inl MathDomainError"
  using assms
  by (auto simp: point_contribution_def Let_def lorentz_factor_def split: sum.splits if_splits)

lemma aggregate_step_no_domain_error: "aggregate_step tol st c \<noteq> Inl MathDomainError"
  by (auto simp: aggregate_step_def split: option.splits)

lemma process_points_no_domain_error:
  assumes "\<forall>pt \<in> set pts. g_hkl pt \<noteq> 0 \<longrightarrow> (\<exists>theta. bragg_theta wl (g_hkl pt) = Inr theta)"
  shows "process_points tol wl is_hex scs st pts \<noteq> Inl MathDomainError"
  using assms
proof (induction pts arbitrary: st)
  case Nil
  then show ?case by simp
next
  case (Cons pt pts)
  show ?case
  proof (cases "g_hkl pt \<noteq> 0")
    case False
    with Cons show ?thesis by simp
  next
    case True
    with Cons.prems obtain theta where "bragg_theta wl (g_hkl pt) = Inr theta" by auto
    then have p: "point_contribution wl is_hex scs pt \<noteq> Inl MathDomainError"
      by (rule point_contribution_no_domain_error)
    from Cons have r: "process_points tol wl is_hex scs st' pts \<noteq> Inl MathDomainError" for st'
      by simp
    from True p r aggregate_step_no_domain_error show ?thesis
      by (auto split: sum.splits)
  qed
qed

lemma flatten_species_no_domain_error: "flatten_species ext dwf fc sps \<noteq> Inl MathDomainError"
  by (induction ext dwf fc sps rule: flatten_species.induct) (auto split: option.splits sum.splits)

lemma flatten_sites_no_domain_error: "flatten_sites ext dwf ss \<noteq> Inl MathDomainError"
  by (induction ss) (auto split: sum.splits simp: flatten_species_no_domain_error)

lemma set_recip_pts: "set (recip_pts lat min_r max_r) \<subseteq> set (points_in_sphere lat max_r)"
  by (auto simp: recip_pts_def)

lemma get_pattern_no_domain_error:
  assumes "symprec self = Some sp" and "wavelength self = Some wl" and "0 < wl"
    and "\<forall>r. \<forall>pt \<in> set (points_in_sphere (lattice (working_structure ext sp struc)) r).
           0 \<le> g_hkl pt \<and> g_hkl pt \<le> r"
  shows "get_pattern ext self struc scaled rng \<noteq> Inl MathDomainError"
proof -
  let ?lat = "lattice (working_structure ext sp struc)"
  have pp: "process_points tol wl is_hex scs st (processing_order (recip_pts ?lat min_r max_r))
          \<noteq> Inl MathDomainError"
    if rb: "radius_bounds wl rng = Inr (min_r, max_r)" for tol is_hex scs st min_r max_r
  proof (rule process_points_no_domain_error, intro ballI impI)
    fix pt assume "pt \<in> set (processing_order (recip_pts ?lat min_r max_r))"
    then have "pt \<in> set (points_in_sphere ?lat max_r)"
      using set_recip_pts [of ?lat min_r max_r] by (auto simp: processing_order_def)
    with assms(4) have "0 \<le> g_hkl pt" "g_hkl pt \<le> max_r" by blast+
    with assms(3) rb show "\<exists>theta. bragg_theta wl (g_hkl pt) = Inr theta"
      using bragg_theta_in_window by blast
  qed
  from assms(3) obtain min_r max_r where rb: "radius_bounds wl rng = Inr (min_r, max_r)"
    by (cases rng) (auto simp: radius_bounds_def)
  have b: "build_pattern ext ps \<noteq> Inl MathDomainError" for ps
    by (simp add: build_pattern_def Let_def)
  have n: "normalize_max v xrd \<noteq> Inl MathDomainError" for v xrd
    by (simp add: normalize_max_def)
  show ?thesis
    unfolding get_pattern_def Let_def
    using pp [OF rb] flatten_sites_no_domain_error b n
    by (auto simp: assms(1,2) rb split: sum.splits)
qed

text \<open>
  C6.  For a positive wavelength and a magnitude that is not negative: the angle
  computation raises the domain error exactly when the magnitude exceeds
  \<open>2 / wavelength\<close>; a magnitude within the radius derived from the window never
  raises it, and then \<^verbatim>\<open>get_pattern\<close> does not end in the domain error when the
  enumerator keeps within the radius it is given; a point of magnitude zero is skipped
  by the loop; and for any other magnitude the angle and its sine are not zero, so the
  divisor of the Lorentz factor vanishes only where the cosine does.
\<close>

theorem bragg_angle_domain:
  assumes "0 < wl" and "0 \<le> gg"
  shows "(bragg_theta wl gg = Inl MathDomainError \<longleftrightarrow> 2 / wl < gg) \<and>
         (\<not> 2 / wl < gg \<longrightarrow> bragg_theta wl gg = Inr (arcsin (wl * gg / 2))) \<and>
         (radius_bounds wl rng = Inr (min_r, max_r) \<and> gg \<le> max_r
            \<longrightarrow> bragg_theta wl gg = Inr (arcsin (wl * gg / 2))) \<and>
         (symprec self = Some sp \<and> wavelength self = Some wl \<and>
          (\<forall>r. \<forall>pt \<in> set (points_in_sphere (lattice (working_structure ext sp struc)) r).
             0 \<le> g_hkl pt \<and> g_hkl pt \<le> r)
            \<longrightarrow> get_pattern ext self struc scaled rng \<noteq> Inl MathDomainError) \<and>
         (g_hkl pt = 0 \<longrightarrow>
            process_points tol wl is_hex scs st (pt # pts) = process_points tol wl is_hex scs st pts) \<and>
         (gg \<noteq> 0 \<and> bragg_theta wl gg = Inr theta \<longrightarrow>
            theta \<noteq> 0 \<and> sin theta \<noteq> 0 \<and>
            (lorentz_factor theta = Inl ZeroDivisionError \<longleftrightarrow> cos theta = 0))"
proof -
  have a: "bragg_theta wl gg = Inl MathDomainError \<longleftrightarrow> 2 / wl < gg"
    using assms by (rule bragg_theta_error_iff)
  with bragg_theta_cases [of wl gg]
  have b: "\<not> 2 / wl < gg \<longrightarrow> bragg_theta wl gg = Inr (arcsin (wl * gg / 2))" by blast
  have c: "radius_bounds wl rng = Inr (min_r, max_r) \<and> gg \<le> max_r
            \<longrightarrow> bragg_theta wl gg = Inr (arcsin (wl * gg / 2))"
    using assms bragg_theta_in_window by blast
  have d: "symprec self = Some sp \<and> wavelength self = Some wl \<and>
          (\<forall>r. \<forall>pt \<in> set (points_in_sphere (lattice (working_structure ext sp struc)) r).
             0 \<le> g_hkl pt \<and> g_hkl pt \<le> r)
            \<longrightarrow> get_pattern ext self struc scaled rng \<noteq> Inl MathDomainError"
    using assms(1) get_pattern_no_domain_error by blast
  have e: "g_hkl pt = 0 \<longrightarrow>
            process_points tol wl is_hex scs st (pt # pts) = process_points tol wl is_hex scs st pts"
    by simp
  have f: "gg \<noteq> 0 \<and> bragg_theta wl gg = Inr theta \<longrightarrow>
            theta \<noteq> 0 \<and> sin theta \<noteq> 0 \<and>
            (lorentz_factor theta = Inl ZeroDivisionError \<longleftrightarrow> cos theta = 0)"
  proof
    assume h: "gg \<noteq> 0 \<and> bragg_theta wl gg = Inr theta"
    with assms(1) have "theta \<noteq> 0 \<and> sin theta \<noteq> 0"
      using bragg_theta_nonzero [of wl gg theta] by simp
    then show "theta \<noteq> 0 \<and> sin theta \<noteq> 0 \<and>
            (lorentz_factor theta = Inl ZeroDivisionError \<longleftrightarrow> cos theta = 0)"
      by (simp add: lorentz_factor_error_iff)
  qed
  from a b c d e f show ?thesis by blast
qed

theorem bragg_angle_domain_witness:
  "(0 :: real) < 1 \<and> (0 :: real) \<le> 1 \<and> \<not> (2 :: real) / 1 < 1 \<and>
   bragg_theta 1 1 = Inr (pi / 6) \<and>
   bragg_theta 1 1 \<noteq> Inl MathDomainError \<and>
   radius_bounds 1 (Some (0, 90)) = Inr (0, sqrt 2) \<and> 1 \<le> sqrt 2 \<and>
   get_pattern ex_externals ex_calculator ex_structure True (Some (0, 90)) \<noteq> Inl MathDomainError \<and>
   process_points (1 / 100000) 1 False ex_scs empty_aggregator [\<lparr>hkl = (0, 0, 0), g_hkl = 0\<rparr>]
     = process_points (1 / 100000) 1 False ex_scs empty_aggregator [] \<and>
   pi / 6 \<noteq> 0 \<and> sin (pi / 6) \<noteq> 0 \<and> lorentz_factor (pi / 6) \<noteq> Inl ZeroDivisionError"
proof -
  have z: "(0 :: real) < 1" "(0 :: real) \<le> 1" by simp_all
  have bt: "bragg_theta 1 1 = Inr (pi / 6)" by (simp add: bragg_theta_def)
  have en: "\<forall>r. \<forall>pt \<in> set (points_in_sphere (lattice (working_structure ex_externals 0 ex_structure)) r).
             0 \<le> g_hkl pt \<and> g_hkl pt \<le> r"
    by (auto simp: working_structure_def ex_structure_def ex_lattice_def ex_points_def)
  have sw: "symprec ex_calculator = Some 0" "wavelength ex_calculator = Some 1"
    by (simp_all add: ex_calculator_eq)
  have c: "cos (pi / 6) \<noteq> 0" by (simp add: cos_30)
  note t = bragg_angle_domain [OF z, of "Some (0, 90)" 0 "sqrt 2" ex_calculator 0 ex_externals
      ex_structure True "\<lparr>hkl = (0, 0, 0), g_hkl = 0\<rparr>" "1 / 100000" False ex_scs
      empty_aggregator "[]" "pi / 6"]
  from t bt have 1: "bragg_theta 1 1 \<noteq> Inl MathDomainError" by simp
  from t en sw have 2: "get_pattern ex_externals ex_calculator ex_structure True (Some (0, 90))
      \<noteq> Inl MathDomainError" by blast
  from t have 3: "process_points (1 / 100000) 1 False ex_scs empty_aggregator [\<lparr>hkl = (0, 0, 0), g_hkl = 0\<rparr>]
     = process_points (1 / 100000) 1 False ex_scs empty_aggregator []" by simp
  from t bt c have 4: "pi / 6 \<noteq> 0 \<and> sin (pi / 6) \<noteq> 0 \<and> lorentz_factor (pi / 6) \<noteq> Inl ZeroDivisionError"
    by simp
  from bt 1 2 3 4 ex_radius_bounds show ?thesis by simp
qed

end
